theory Spec2Isabelle
  imports Main
begin

section \<open>Data model (types.ts, migrations/0001_init.sql)\<close>

text \<open>
  The timestamps of an event, a delivery and a log row are ISO-8601 texts written by
  \<open>Date.toISOString()\<close>. The model identifies such a text with the instant it denotes,
  in milliseconds since the epoch: on these texts SQLite's text comparison is
  chronological order and text equality is equality of instants. The worker runs in UTC,
  so local-time accessors of \<open>Date\<close> are the UTC ones.

  \<open>users.pause_until\<close> is different: the pause route stores the text of the request as
  it came, and both cron queries compare that text with \<open>now.toISOString()\<close> as
  SQLite TEXT. The column is therefore kept as text, and the comparison is the one of
  SQLite (\<open>textLess\<close>), on the rendering \<open>toISOString\<close> of the instant.

  A route handler reads the clock once: every \<open>new Date()\<close> of one request is the same
  instant \<open>now\<close>. The scheduler pass reads it once at its start and again in every call
  of \<open>createPendingEvent\<close>, after awaited queries; those later readings are given by a
  function \<open>clock\<close> of the number of identifiers drawn so far, which every such call
  increases, so every call may read a different instant.

  An optional timestamp or number of a confirm or snooze request is \<open>None\<close> when the
  field is absent or null (for a timestamp, also when it is the empty text: all are falsy
  in JavaScript); an optional identifier keeps its text and is tested with \<open>truthy\<close>.
  A configured check-in time \<open>HH:MM\<close> is the pair of its hour and minute.
\<close>

type_synonym instant = int
type_synonym ident = string

datatype CheckinStatus = pending | confirmed | missed | snoozed | alerted | paused

datatype DeliveryStatus = delivery_pending | sent | delivered | failed

record User =
  u_user_id :: ident
  u_name :: "string option"
  u_checkin_times :: "(nat \<times> nat) list"
  u_grace_minutes :: int
  u_sms_alerts_enabled :: int
  u_pause_until :: "string option"
  u_apns_token :: "string option"
  u_updated_at :: instant

record Contact =
  c_contact_id :: ident
  c_user_id :: ident
  c_phone_enc :: string
  c_level :: int
  c_has_app :: int
  c_apns_token :: "string option"

record CheckinEvent =
  e_event_id :: ident
  e_user_id :: ident
  e_scheduled_time :: instant
  e_deadline_time :: instant
  e_status :: CheckinStatus
  e_confirmed_at :: "instant option"
  e_snoozed_until :: "instant option"
  e_snooze_count :: int
  e_escalated_at :: "instant option"
  e_escalation_level :: int
  e_level2_escalated_at :: "instant option"
  e_created_at :: instant
  e_updated_at :: instant

record AlertDelivery =
  d_delivery_id :: ident
  d_event_id :: ident
  d_contact_id :: ident
  d_channel :: string
  d_status :: DeliveryStatus
  d_provider_ref :: "string option"
  d_provider_status :: "string option"
  d_error_message :: "string option"
  d_retry_count :: int
  d_max_retries :: int
  d_next_retry_at :: "instant option"
  d_sent_at :: "instant option"
  d_created_at :: instant
  d_updated_at :: instant

datatype detail = DNum int | DTime instant | DText string

record EventLog =
  l_log_id :: ident
  l_user_id :: ident
  l_event_id :: "ident option"
  l_event_type :: string
  l_event_time :: instant
  l_result :: string
  l_details :: "(string \<times> detail) list option"
  l_created_at :: instant

text \<open>Messages handed to the outside world: SMS bodies and push notifications.\<close>

datatype notification =
    SmsTo string string
  | ContactAlertTo string
  | CheckinReminderTo string ident

text \<open>
  The D1 database, the count of UUIDs drawn so far and the messages sent so far.
  Tables are lists in row order.
\<close>

record DB =
  users :: "User list"
  contacts :: "Contact list"
  checkin_events :: "CheckinEvent list"
  alert_deliveries :: "AlertDelivery list"
  event_logs :: "EventLog list"
  uuid_count :: nat
  outbox :: "notification list"

record SendSMSResult =
  success :: bool
  sid :: "string option"
  sms_status :: "string option"
  errorCode :: "int option"
  errorMessage :: "string option"

text \<open>
  The collaborators outside the worker. \<open>randomUUID\<close> is the sequence of identifiers
  that \<open>crypto.randomUUID()\<close> returns, taken to be unused ones, so primary-key
  collisions on generated identifiers are not modelled. \<open>decrypt\<close> is \<open>Inr\<close> of the
  plain text, or \<open>Inl\<close> of the thrown error's message when it throws (the text that
  \<open>error instanceof Error ? error.message : 'Unknown error'\<close> yields for what was
  thrown). A push sender is \<open>False\<close> when it throws; \<open>twilio\<close> is what \<open>sendSMS\<close>
  returns for a phone number and a body (it catches its own network errors).
  \<open>parseDate\<close> is \<open>new Date(text).getTime()\<close>, \<open>None\<close> for an invalid date.
  \<open>constraintMessage\<close> is the message of the error D1 throws for a violated unique
  index, given the columns of the index.
\<close>

record Env =
  randomUUID :: "nat \<Rightarrow> ident"
  decrypt :: "string \<Rightarrow> string + string"
  twilio :: "string \<Rightarrow> string \<Rightarrow> SendSMSResult"
  sendContactAlert :: "string \<Rightarrow> bool"
  sendCheckinReminder :: "string \<Rightarrow> bool"
  parseDate :: "string \<Rightarrow> instant option"
  constraintMessage :: "string \<Rightarrow> string"

text \<open>
  What the code throws: a violated unique index, \<open>new Error('Event not found')\<close>, and
  the \<open>RangeError\<close> of \<open>toISOString\<close> on an invalid date.
\<close>

datatype error = UniqueViolation string | EventNotFound | InvalidTimeValue

text \<open>The \<open>message\<close> of a thrown error (the last one is the text of the V8 engine).\<close>

fun error_message :: "Env \<Rightarrow> error \<Rightarrow> string" where
  "error_message env (UniqueViolation idx) = constraintMessage env idx"
| "error_message env EventNotFound = ''Event not found''"
| "error_message env InvalidTimeValue = ''Invalid time value''"

section \<open>Helpers\<close>

definition generateUUID :: "Env \<Rightarrow> DB \<Rightarrow> ident \<times> DB" where
  "generateUUID env db = (randomUUID env (uuid_count db), db\<lparr>uuid_count := Suc (uuid_count db)\<rparr>)"

text \<open>JavaScript truthiness of an optional string: null and the empty string are falsy.\<close>

fun truthy :: "string option \<Rightarrow> bool" where
  "truthy None = False"
| "truthy (Some s) = (s \<noteq> [])"

definition logEvent ::
  "Env \<Rightarrow> instant \<Rightarrow> ident \<Rightarrow> ident option \<Rightarrow> string \<Rightarrow> instant \<Rightarrow> string
     \<Rightarrow> (string \<times> detail) list option \<Rightarrow> DB \<Rightarrow> DB" where
  "logEvent env now userId eventId eventType eventTime result details db =
     (let (logId, db1) = generateUUID env db
      in db1\<lparr>event_logs := event_logs db1 @
           [\<lparr>l_log_id = logId, l_user_id = userId, l_event_id = eventId,
             l_event_type = eventType, l_event_time = eventTime, l_result = result,
             l_details = details, l_created_at = now\<rparr>]\<rparr>)"

text \<open>Calendar arithmetic on instants (UTC).\<close>

definition msPerDay :: int where
  "msPerDay = 86400000"

definition startOfDay :: "instant \<Rightarrow> instant" where
  "startOfDay t = t - t mod msPerDay"

definition hoursOf :: "instant \<Rightarrow> nat" where
  "hoursOf t = nat ((t mod msPerDay) div 3600000)"

definition minutesOf :: "instant \<Rightarrow> nat" where
  "minutesOf t = nat (((t mod msPerDay) div 60000) mod 60)"

text \<open>\<open>d.setHours(h, m, 0, 0)\<close> on a copy of \<open>t\<close>.\<close>

definition setHours :: "instant \<Rightarrow> nat \<Rightarrow> nat \<Rightarrow> instant" where
  "setHours t h m = startOfDay t + int h * 3600000 + int m * 60000"

text \<open>\<open>now.toTimeString().substring(0, 5)\<close>, split at the colon.\<close>

definition currentTime :: "instant \<Rightarrow> nat \<times> nat" where
  "currentTime now = (hoursOf now, minutesOf now)"

text \<open>
  A \<open>Date\<close> holds an instant of at most 8.64e15 milliseconds either side of the epoch;
  anything else is an invalid date, on which \<open>toISOString\<close> throws.
\<close>

definition validDate :: "int \<Rightarrow> bool" where
  "validDate t = (\<bar>t\<bar> \<le> 8640000000000000)"

subsection \<open>Timestamps as text\<close>

text \<open>
  \<open>Date.prototype.toISOString\<close>: \<open>YYYY-MM-DDTHH:mm:ss.sssZ\<close> in UTC, the year with a
  sign and six digits outside 0 to 9999. The date of a day number (days since the epoch)
  is computed in the proleptic Gregorian calendar, over 400-year eras that start on
  1 March.
\<close>

definition digit :: "nat \<Rightarrow> char" where
  "digit n = ''0123456789'' ! (n mod 10)"

definition pad2 :: "nat \<Rightarrow> string" where
  "pad2 n = [digit (n div 10), digit n]"

definition pad3 :: "nat \<Rightarrow> string" where
  "pad3 n = [digit (n div 100), digit (n div 10), digit n]"

definition pad4 :: "nat \<Rightarrow> string" where
  "pad4 n = [digit (n div 1000), digit (n div 100), digit (n div 10), digit n]"

definition pad6 :: "nat \<Rightarrow> string" where
  "pad6 n = [digit (n div 100000), digit (n div 10000), digit (n div 1000), digit (n div 100),
             digit (n div 10), digit n]"

definition dayOfEra :: "int \<Rightarrow> int" where
  "dayOfEra z = (z + 719468) mod 146097"

definition yearOfEra :: "int \<Rightarrow> int" where
  "yearOfEra z =
     (dayOfEra z - dayOfEra z div 1460 + dayOfEra z div 36524 - dayOfEra z div 146096) div 365"

definition dayOfYear :: "int \<Rightarrow> int" where
  "dayOfYear z = dayOfEra z - (365 * yearOfEra z + yearOfEra z div 4 - yearOfEra z div 100)"

definition monthIndex :: "int \<Rightarrow> int" where
  "monthIndex z = (5 * dayOfYear z + 2) div 153"

definition dayOf :: "int \<Rightarrow> nat" where
  "dayOf z = nat (dayOfYear z - (153 * monthIndex z + 2) div 5 + 1)"

definition monthOf :: "int \<Rightarrow> nat" where
  "monthOf z = nat (if monthIndex z < 10 then monthIndex z + 3 else monthIndex z - 9)"

definition yearOf :: "int \<Rightarrow> int" where
  "yearOf z = yearOfEra z + ((z + 719468) div 146097) * 400 + (if monthOf z \<le> 2 then 1 else 0)"

definition yearText :: "int \<Rightarrow> string" where
  "yearText y = (if 0 \<le> y \<and> y \<le> 9999 then pad4 (nat y)
                 else (if y < 0 then ''-'' else ''+'') @ pad6 (nat \<bar>y\<bar>))"

definition dateText :: "int \<Rightarrow> string" where
  "dateText z = yearText (yearOf z) @ ''-'' @ pad2 (monthOf z) @ ''-'' @ pad2 (dayOf z)"

definition clockText :: "nat \<Rightarrow> string" where
  "clockText ms = pad2 (ms div 3600000) @ '':'' @ pad2 (ms div 60000 mod 60) @ '':''
                    @ pad2 (ms div 1000 mod 60) @ ''.'' @ pad3 (ms mod 1000)"

definition toISOString :: "instant \<Rightarrow> string" where
  "toISOString t = dateText (t div msPerDay) @ ''T'' @ clockText (nat (t mod msPerDay)) @ ''Z''"

text \<open>
  \<open>a < b\<close> on two TEXT values in SQLite (the default collation \<open>BINARY\<close>): the bytes
  are compared in order, and a proper prefix is the smaller.
\<close>

fun textLess :: "string \<Rightarrow> string \<Rightarrow> bool" where
  "textLess [] [] = False"
| "textLess [] (y # ys) = True"
| "textLess (x # xs) [] = False"
| "textLess (x # xs) (y # ys) = ((of_char x :: nat) < of_char y \<or> (x = y \<and> textLess xs ys))"

section \<open>services/twilio.ts\<close>

definition delayMinutes :: "nat \<Rightarrow> int" where
  "delayMinutes retryCount = 2 ^ retryCount"

definition maxDelayMinutes :: int where
  "maxDelayMinutes = 30"

definition actualDelay :: "nat \<Rightarrow> int" where
  "actualDelay retryCount = min (delayMinutes retryCount) maxDelayMinutes"

text \<open>\<open>nextRetry.setMinutes(nextRetry.getMinutes() + actualDelay)\<close> on the current time.\<close>

definition calculateNextRetry :: "instant \<Rightarrow> nat \<Rightarrow> instant" where
  "calculateNextRetry now retryCount = now + actualDelay retryCount * 60000"

definition digit2 :: "nat \<Rightarrow> string" where
  "digit2 n = [''0123456789'' ! ((n div 10) mod 10), ''0123456789'' ! (n mod 10)]"

text \<open>The \<open>HH:MM\<close> that \<open>scheduledTime.split('T')[1].substring(0, 5)\<close> extracts.\<close>

definition timeText :: "instant \<Rightarrow> string" where
  "timeText t = digit2 (hoursOf t) @ '':'' @ digit2 (minutesOf t)"

definition generateAlertMessage :: "string \<Rightarrow> instant \<Rightarrow> string" where
  "generateAlertMessage userName scheduledTime =
     ''[Are You Safe] '' @ userName @ '' missed their '' @ timeText scheduledTime @
     '' safety check-in. Please try to contact them to make sure they'' @ [CHR 0x27] @
     ''re okay. This is an automated message - do not reply.''"

section \<open>Store operations\<close>

definition first :: "'a list \<Rightarrow> 'a option" where
  "first xs = (case xs of [] \<Rightarrow> None | x # _ \<Rightarrow> Some x)"

text \<open>
  \<open>INSERT INTO checkin_events\<close>: the unique index \<open>idx_events_user_scheduled\<close> on
  (user_id, scheduled_time) makes the statement throw on a duplicate.
\<close>

definition insertEvent :: "CheckinEvent \<Rightarrow> DB \<Rightarrow> error + DB" where
  "insertEvent e db =
     (if list_ex (\<lambda>x. e_user_id x = e_user_id e \<and> e_scheduled_time x = e_scheduled_time e)
           (checkin_events db)
      then Inl (UniqueViolation ''checkin_events.user_id, checkin_events.scheduled_time'')
      else Inr (db\<lparr>checkin_events := checkin_events db @ [e]\<rparr>))"

text \<open>
  \<open>INSERT INTO alert_deliveries\<close>: the unique index \<open>idx_deliveries_event_contact\<close> on
  (event_id, contact_id, channel) makes the statement throw on a duplicate.
\<close>

definition insertDelivery :: "AlertDelivery \<Rightarrow> DB \<Rightarrow> error + DB" where
  "insertDelivery d db =
     (if list_ex (\<lambda>x. d_event_id x = d_event_id d \<and> d_contact_id x = d_contact_id d
                       \<and> d_channel x = d_channel d) (alert_deliveries db)
      then Inl (UniqueViolation
        ''alert_deliveries.event_id, alert_deliveries.contact_id, alert_deliveries.channel'')
      else Inr (db\<lparr>alert_deliveries := alert_deliveries db @ [d]\<rparr>))"

text \<open>\<open>UPDATE ... SET ... WHERE ...\<close> on a table: every row that matches is rewritten.\<close>

definition updateEvents ::
  "(CheckinEvent \<Rightarrow> bool) \<Rightarrow> (CheckinEvent \<Rightarrow> CheckinEvent) \<Rightarrow> DB \<Rightarrow> DB" where
  "updateEvents P f db =
     db\<lparr>checkin_events := map (\<lambda>e. if P e then f e else e) (checkin_events db)\<rparr>"

definition updateDeliveries ::
  "(AlertDelivery \<Rightarrow> bool) \<Rightarrow> (AlertDelivery \<Rightarrow> AlertDelivery) \<Rightarrow> DB \<Rightarrow> DB" where
  "updateDeliveries P f db =
     db\<lparr>alert_deliveries := map (\<lambda>d. if P d then f d else d) (alert_deliveries db)\<rparr>"

definition updateUsers :: "(User \<Rightarrow> bool) \<Rightarrow> (User \<Rightarrow> User) \<Rightarrow> DB \<Rightarrow> DB" where
  "updateUsers P f db = db\<lparr>users := map (\<lambda>u. if P u then f u else u) (users db)\<rparr>"

text \<open>
  \<open>pause_until IS NULL OR pause_until < ?\<close> with \<open>now.toISOString()\<close> bound: a
  comparison of the stored text with the text of the current time.
\<close>

definition notPaused :: "instant \<Rightarrow> User \<Rightarrow> bool" where
  "notPaused now u =
     (case u_pause_until u of None \<Rightarrow> True | Some p \<Rightarrow> textLess p (toISOString now))"

section \<open>cron/scheduler.ts: creating pending events\<close>

definition isTimeMatch :: "nat \<times> nat \<Rightarrow> nat \<times> nat \<Rightarrow> bool" where
  "isTimeMatch current scheduled =
     (let currentMinutes = int (fst current) * 60 + int (snd current);
          scheduledMinutes = int (fst scheduled) * 60 + int (snd scheduled)
      in \<bar>currentMinutes - scheduledMinutes\<bar> \<le> 1)"

definition pendingEvent :: "ident \<Rightarrow> ident \<Rightarrow> instant \<Rightarrow> instant \<Rightarrow> instant \<Rightarrow> CheckinEvent" where
  "pendingEvent eventId userId scheduledTime deadlineTime now =
     \<lparr>e_event_id = eventId, e_user_id = userId, e_scheduled_time = scheduledTime,
      e_deadline_time = deadlineTime, e_status = pending, e_confirmed_at = None,
      e_snoozed_until = None, e_snooze_count = 0, e_escalated_at = None,
      e_escalation_level = 0, e_level2_escalated_at = None,
      e_created_at = now, e_updated_at = now\<rparr>"

text \<open>
  The push reminder is best effort: a throwing sender is caught and logged to the console.
\<close>

definition remindUser :: "Env \<Rightarrow> User \<Rightarrow> ident \<Rightarrow> DB \<Rightarrow> DB" where
  "remindUser env user eventId db =
     (case u_apns_token user of
        None \<Rightarrow> db
      | Some token \<Rightarrow>
          if token \<noteq> [] \<and> sendCheckinReminder env token
          then db\<lparr>outbox := outbox db @ [CheckinReminderTo token eventId]\<rparr>
          else db)"

text \<open>
  \<open>createPendingEvent\<close>, which reads the clock itself. The result is the exception that
  escaped, if any, and the database as the call left it. \<open>setHours\<close> and the addition
  of the grace window can leave the range of \<open>Date\<close>: the comparison with an invalid
  date is false, and \<open>toISOString\<close> on it throws before the insert is sent
  (\<open>grace_minutes\<close> is stored as the registration request gave it).
\<close>

definition createPendingEvent ::
  "Env \<Rightarrow> instant \<Rightarrow> User \<Rightarrow> nat \<times> nat \<Rightarrow> DB \<Rightarrow> error option \<times> DB" where
  "createPendingEvent env now user timeStr db =
     (let (eventId, db1) = generateUUID env db;
          scheduledTime = setHours now (fst timeStr) (snd timeStr)
      in if validDate scheduledTime \<and> scheduledTime < now then (None, db1)
         else
           let deadlineTime = scheduledTime + u_grace_minutes user * 60 * 1000
           in if \<not> validDate scheduledTime \<or> \<not> validDate deadlineTime
              then (Some InvalidTimeValue, db1)
              else
                case insertEvent
                       (pendingEvent eventId (u_user_id user) scheduledTime deadlineTime now)
                       db1 of
                  Inl err \<Rightarrow> (Some err, db1)
                | Inr db2 \<Rightarrow>
                    (None,
                     logEvent env now (u_user_id user) (Some eventId) ''checkin_scheduled'' now
                       ''ok''
                       (Some [(''scheduled_time'', DTime scheduledTime),
                              (''deadline_time'', DTime deadlineTime)])
                       (remindUser env user eventId db2)))"

text \<open>
  The existence test of the scheduler:
  \<open>user_id = ? AND scheduled_time >= todayStart AND scheduled_time LIKE '%THH:MM%'\<close>.
  On an ISO text the pattern holds exactly when its hour and minute are \<open>HH:MM\<close>
  (a configured time is written with two digits each).
\<close>

definition existingEvent :: "DB \<Rightarrow> User \<Rightarrow> instant \<Rightarrow> nat \<times> nat \<Rightarrow> CheckinEvent option" where
  "existingEvent db user todayStart scheduledTime =
     find (\<lambda>e. e_user_id e = u_user_id user \<and> todayStart \<le> e_scheduled_time e
                \<and> (hoursOf (e_scheduled_time e), minutesOf (e_scheduled_time e)) = scheduledTime)
          (checkin_events db)"

text \<open>
  The body of the inner loop of \<open>handleScheduledCheckins\<close>, for one configured time.
  \<open>now\<close> is the reading at the start of the pass; \<open>createPendingEvent\<close> gets the
  reading of its own call.
\<close>

definition scheduleSlot ::
  "Env \<Rightarrow> instant \<Rightarrow> (nat \<Rightarrow> instant) \<Rightarrow> User \<Rightarrow> nat \<times> nat \<Rightarrow> DB
     \<Rightarrow> error option \<times> DB" where
  "scheduleSlot env now clock user scheduledTime db =
     (if isTimeMatch (currentTime now) scheduledTime
      then (case existingEvent db user (startOfDay now) scheduledTime of
              None \<Rightarrow> createPendingEvent env (clock (uuid_count db)) user scheduledTime db
            | Some _ \<Rightarrow> (None, db))
      else (None, db))"

fun scheduleTimes ::
  "Env \<Rightarrow> instant \<Rightarrow> (nat \<Rightarrow> instant) \<Rightarrow> User \<Rightarrow> (nat \<times> nat) list \<Rightarrow> DB
     \<Rightarrow> error option \<times> DB" where
  "scheduleTimes env now clock user [] db = (None, db)"
| "scheduleTimes env now clock user (t # ts) db =
     (case scheduleSlot env now clock user t db of
        (Some err, db') \<Rightarrow> (Some err, db')
      | (None, db') \<Rightarrow> scheduleTimes env now clock user ts db')"

text \<open>
  The outer loop: an exception while processing one user is caught and logged to the
  console, and the loop goes on with the next user.
\<close>

fun scheduleUsers :: "Env \<Rightarrow> instant \<Rightarrow> (nat \<Rightarrow> instant) \<Rightarrow> User list \<Rightarrow> DB \<Rightarrow> DB" where
  "scheduleUsers env now clock [] db = db"
| "scheduleUsers env now clock (user # rest) db =
     scheduleUsers env now clock rest
       (snd (scheduleTimes env now clock user (u_checkin_times user) db))"

definition handleScheduledCheckins :: "Env \<Rightarrow> instant \<Rightarrow> (nat \<Rightarrow> instant) \<Rightarrow> DB \<Rightarrow> DB" where
  "handleScheduledCheckins env now clock db =
     scheduleUsers env now clock (filter (notPaused now) (users db)) db"

section \<open>cron/scheduler.ts: escalation\<close>

record DeliveryReport =
  rp_contact_id :: ident
  rp_status :: string
  rp_error :: "string option"

record EscalationResult =
  er_event_id :: ident
  er_contacts_notified :: nat
  er_deliveries :: "DeliveryReport list"

definition smsDelivery :: "ident \<Rightarrow> ident \<Rightarrow> ident \<Rightarrow> instant \<Rightarrow> AlertDelivery" where
  "smsDelivery deliveryId eventId contactId now =
     \<lparr>d_delivery_id = deliveryId, d_event_id = eventId, d_contact_id = contactId,
      d_channel = ''sms'', d_status = delivery_pending, d_provider_ref = None,
      d_provider_status = None, d_error_message = None, d_retry_count = 0,
      d_max_retries = 3, d_next_retry_at = None, d_sent_at = None,
      d_created_at = now, d_updated_at = now\<rparr>"

definition pushDelivery :: "ident \<Rightarrow> ident \<Rightarrow> ident \<Rightarrow> instant \<Rightarrow> AlertDelivery" where
  "pushDelivery deliveryId eventId contactId now =
     \<lparr>d_delivery_id = deliveryId, d_event_id = eventId, d_contact_id = contactId,
      d_channel = ''push'', d_status = sent, d_provider_ref = None,
      d_provider_status = None, d_error_message = None, d_retry_count = 0,
      d_max_retries = 3, d_next_retry_at = None, d_sent_at = Some now,
      d_created_at = now, d_updated_at = now\<rparr>"

text \<open>
  The push attempt for a contact with the app: its own try and catch swallow a throwing
  sender and a failing insert of the push row alike.
\<close>

definition pushContact :: "Env \<Rightarrow> instant \<Rightarrow> ident \<Rightarrow> Contact \<Rightarrow> DB \<Rightarrow> DB" where
  "pushContact env now eventId contact db =
     (case c_apns_token contact of
        None \<Rightarrow> db
      | Some token \<Rightarrow>
          if c_has_app contact \<noteq> 0 \<and> token \<noteq> [] then
            (if sendContactAlert env token then
               (let db1 = db\<lparr>outbox := outbox db @ [ContactAlertTo token]\<rparr>;
                    (pushDeliveryId, db2) = generateUUID env db1
                in case insertDelivery
                          (pushDelivery pushDeliveryId eventId (c_contact_id contact) now) db2 of
                     Inl err \<Rightarrow> db2
                   | Inr db3 \<Rightarrow> db3)
             else db)
          else db)"

definition existingDelivery :: "DB \<Rightarrow> ident \<Rightarrow> ident \<Rightarrow> AlertDelivery option" where
  "existingDelivery db eventId contactId =
     find (\<lambda>d. d_event_id d = eventId \<and> d_contact_id d = contactId \<and> d_channel d = ''sms'')
          (alert_deliveries db)"

definition report :: "ident \<Rightarrow> string \<Rightarrow> string option \<Rightarrow> DeliveryReport" where
  "report contactId st err = \<lparr>rp_contact_id = contactId, rp_status = st, rp_error = err\<rparr>"

text \<open>
  The body of the contact loop of \<open>triggerEscalation\<close>, with its try and catch: the
  state is the database and the \<open>deliveries\<close> array built so far.
\<close>

definition alertContact ::
  "Env \<Rightarrow> instant \<Rightarrow> ident \<Rightarrow> string \<Rightarrow> Contact \<Rightarrow> DB \<times> DeliveryReport list
     \<Rightarrow> DB \<times> DeliveryReport list" where
  "alertContact env now eventId message contact st =
     (let db = fst st; deliveries = snd st; contactId = c_contact_id contact
      in case existingDelivery db eventId contactId of
           Some _ \<Rightarrow> (db, deliveries @ [report contactId ''already_exists'' None])
         | None \<Rightarrow>
             let db1 = pushContact env now eventId contact db
             in case decrypt env (c_phone_enc contact) of
                  Inl thrown \<Rightarrow>
                    (db1, deliveries @ [report contactId ''error'' (Some thrown)])
                | Inr phone \<Rightarrow>
                    let (deliveryId, db2) = generateUUID env db1
                    in case insertDelivery (smsDelivery deliveryId eventId contactId now) db2 of
                         Inl err \<Rightarrow>
                           (db2, deliveries @
                              [report contactId ''error'' (Some (error_message env err))])
                       | Inr db3 \<Rightarrow>
                           let result = twilio env phone message;
                               db4 = db3\<lparr>outbox := outbox db3 @ [SmsTo phone message]\<rparr>
                           in if success result then
                                (updateDeliveries (\<lambda>d. d_delivery_id d = deliveryId)
                                   (\<lambda>d. d\<lparr>d_status := sent, d_provider_ref := sid result,
                                           d_provider_status := sms_status result,
                                           d_sent_at := Some now, d_updated_at := now\<rparr>) db4,
                                 deliveries @ [report contactId ''sent'' None])
                              else
                                (updateDeliveries (\<lambda>d. d_delivery_id d = deliveryId)
                                   (\<lambda>d. d\<lparr>d_status := failed,
                                           d_error_message := errorMessage result,
                                           d_next_retry_at := Some (calculateNextRetry now 0),
                                           d_updated_at := now\<rparr>) db4,
                                 deliveries @
                                   [report contactId ''failed'' (errorMessage result)]))"

text \<open>The join of an event with its user, for one event id, in row order.\<close>

definition eventWithUser :: "DB \<Rightarrow> ident \<Rightarrow> (CheckinEvent \<times> User) option" where
  "eventWithUser db eventId =
     first [(e, u). e \<leftarrow> checkin_events db, u \<leftarrow> users db,
                    e_user_id e = u_user_id u \<and> e_event_id e = eventId]"

definition userName :: "User \<Rightarrow> string" where
  "userName u = (if truthy (u_name u) then (case u_name u of Some n \<Rightarrow> n | None \<Rightarrow> [])
                 else ''Your contact'')"

definition sentCount :: "DeliveryReport list \<Rightarrow> nat" where
  "sentCount ds = length (filter (\<lambda>d. rp_status d = ''sent'') ds)"

text \<open>
  \<open>SELECT * FROM contacts WHERE user_id = ? ORDER BY level ASC\<close>; contacts of the same
  level stay in row order.
\<close>

definition userContacts :: "DB \<Rightarrow> ident \<Rightarrow> Contact list" where
  "userContacts db userId = sort_key c_level (filter (\<lambda>c. c_user_id c = userId) (contacts db))"

text \<open>
  \<open>triggerEscalation\<close>: the result is the thrown error or the returned object, and the
  database as the call left it.
\<close>

definition triggerEscalation ::
  "Env \<Rightarrow> instant \<Rightarrow> ident \<Rightarrow> DB \<Rightarrow> (error + EscalationResult) \<times> DB" where
  "triggerEscalation env now eventId db =
     (case eventWithUser db eventId of
        None \<Rightarrow> (Inl EventNotFound, db)
      | Some (event, user) \<Rightarrow>
          let db1 = updateEvents (\<lambda>e. e_event_id e = eventId)
                      (\<lambda>e. e\<lparr>e_status := alerted, e_escalated_at := Some now,
                              e_updated_at := now\<rparr>) db;
              db2 = logEvent env now (e_user_id event) (Some eventId)
                      ''checkin_escalated'' now ''missed'' None db1
          in if u_sms_alerts_enabled user = 0
             then (Inr \<lparr>er_event_id = eventId, er_contacts_notified = 0, er_deliveries = []\<rparr>, db2)
             else
               let cs = userContacts db2 (e_user_id event)
               in if cs = []
                  then (Inr \<lparr>er_event_id = eventId, er_contacts_notified = 0,
                             er_deliveries = []\<rparr>, db2)
                  else
                    let message = generateAlertMessage (userName user) (e_scheduled_time event);
                        st = fold (alertContact env now eventId message) cs (db2, []);
                        db4 = logEvent env now (e_user_id event) (Some eventId)
                                ''contacts_alerted'' now ''ok''
                                (Some [(''contacts_count'', DNum (int (sentCount (snd st))))])
                                (fst st)
                    in (Inr \<lparr>er_event_id = eventId,
                              er_contacts_notified = sentCount (snd st),
                              er_deliveries = snd st\<rparr>, db4))"

text \<open>
  The overdue events of users that are not paused, as \<open>handleEscalations\<close> selects them.
\<close>

definition overdueEvents :: "instant \<Rightarrow> DB \<Rightarrow> CheckinEvent list" where
  "overdueEvents now db =
     [e. e \<leftarrow> checkin_events db, u \<leftarrow> users db,
         e_user_id e = u_user_id u \<and> (e_status e = pending \<or> e_status e = snoozed)
         \<and> e_deadline_time e < now \<and> notPaused now u]"

text \<open>An exception of \<open>triggerEscalation\<close> is caught per event and logged to the console.\<close>

definition handleEscalations :: "Env \<Rightarrow> instant \<Rightarrow> DB \<Rightarrow> DB" where
  "handleEscalations env now db =
     fold (\<lambda>e d. snd (triggerEscalation env now (e_event_id e) d)) (overdueEvents now db) db"

section \<open>routes/checkin.ts\<close>

text \<open>
  A route returns an HTTP response: the JSON body of a 200, or an error status with its
  \<open>error\<close> text. The caller is the authenticated user (a request without one is
  answered 401 before the handler body runs).
\<close>

datatype 'a http = Ok200 'a | HttpError nat string

record ConfirmRequest =
  rq_event_id :: "ident option"
  rq_scheduled_at :: "instant option"
  rq_confirmed_at :: "instant option"

record ConfirmResponse =
  cr_event_id :: ident
  cr_status :: CheckinStatus
  cr_confirmed_at :: "instant option"
  cr_was_escalated :: bool
  cr_message :: "string option"

text \<open>\<open>SELECT * FROM checkin_events WHERE event_id = ? AND user_id = ?\<close>, first row.\<close>

definition eventById :: "DB \<Rightarrow> User \<Rightarrow> ident option \<Rightarrow> CheckinEvent option" where
  "eventById db user eventId =
     find (\<lambda>e. Some (e_event_id e) = eventId \<and> e_user_id e = u_user_id user) (checkin_events db)"

text \<open>
  The lookup of \<open>/checkin/confirm\<close>: by event id when the request carries one, else by
  exact scheduled time when it carries one, else the user's pending or snoozed event with
  the latest scheduled time.
\<close>

definition findConfirmEvent :: "DB \<Rightarrow> User \<Rightarrow> ConfirmRequest \<Rightarrow> CheckinEvent option" where
  "findConfirmEvent db user body =
     (if truthy (rq_event_id body) then eventById db user (rq_event_id body)
      else case rq_scheduled_at body of
             Some scheduledAt \<Rightarrow>
               find (\<lambda>e. e_user_id e = u_user_id user \<and> e_scheduled_time e = scheduledAt)
                    (checkin_events db)
           | None \<Rightarrow>
               first (sort_key (\<lambda>e. - e_scheduled_time e)
                       (filter (\<lambda>e. e_user_id e = u_user_id user
                                      \<and> (e_status e = pending \<or> e_status e = snoozed))
                               (checkin_events db))))"

definition confirmedEvent ::
  "ident \<Rightarrow> ident \<Rightarrow> instant \<Rightarrow> instant \<Rightarrow> instant \<Rightarrow> CheckinEvent" where
  "confirmedEvent eventId userId scheduledTime confirmedAt now =
     \<lparr>e_event_id = eventId, e_user_id = userId, e_scheduled_time = scheduledTime,
      e_deadline_time = scheduledTime, e_status = confirmed, e_confirmed_at = Some confirmedAt,
      e_snoozed_until = None, e_snooze_count = 0, e_escalated_at = None,
      e_escalation_level = 0, e_level2_escalated_at = None,
      e_created_at = now, e_updated_at = now\<rparr>"

definition markConfirmed :: "ident \<Rightarrow> instant \<Rightarrow> instant \<Rightarrow> DB \<Rightarrow> DB" where
  "markConfirmed eventId confirmedAt now db =
     updateEvents (\<lambda>e. e_event_id e = eventId)
       (\<lambda>e. e\<lparr>e_status := confirmed, e_confirmed_at := Some confirmedAt, e_updated_at := now\<rparr>) db"

definition confirm ::
  "Env \<Rightarrow> instant \<Rightarrow> User \<Rightarrow> ConfirmRequest \<Rightarrow> DB \<Rightarrow> ConfirmResponse http \<times> DB" where
  "confirm env now user body db =
     (let confirmedAt = (case rq_confirmed_at body of Some t \<Rightarrow> t | None \<Rightarrow> now)
      in case findConfirmEvent db user body of
           None \<Rightarrow>
             let (eventId, db1) = generateUUID env db;
                 scheduledTime = (case rq_scheduled_at body of Some t \<Rightarrow> t | None \<Rightarrow> now)
             in (case insertEvent
                        (confirmedEvent eventId (u_user_id user) scheduledTime confirmedAt now)
                        db1 of
                   Inl err \<Rightarrow> (HttpError 500 ''Confirmation failed'', db1)
                 | Inr db2 \<Rightarrow>
                     (Ok200 \<lparr>cr_event_id = eventId, cr_status = confirmed,
                             cr_confirmed_at = Some confirmedAt, cr_was_escalated = False,
                             cr_message = Some ''Check-in confirmed (new event created)''\<rparr>,
                      logEvent env now (u_user_id user) (Some eventId) ''checkin_confirmed''
                        confirmedAt ''ok'' None db2))
         | Some event \<Rightarrow>
             if e_status event = confirmed then
               (Ok200 \<lparr>cr_event_id = e_event_id event, cr_status = confirmed,
                       cr_confirmed_at = e_confirmed_at event, cr_was_escalated = False,
                       cr_message = Some ''Already confirmed''\<rparr>, db)
             else if e_status event = alerted then
               (Ok200 \<lparr>cr_event_id = e_event_id event, cr_status = confirmed,
                       cr_confirmed_at = Some confirmedAt, cr_was_escalated = True,
                       cr_message = Some ''Confirmed, but alerts were already sent to your contacts. Please let them know you are safe.''\<rparr>,
                logEvent env now (u_user_id user) (Some (e_event_id event))
                  ''checkin_confirmed_late'' confirmedAt ''ok''
                  (Some [(''note'', DText ''Confirmed after alerts were sent'')])
                  (markConfirmed (e_event_id event) confirmedAt now db))
             else
               (Ok200 \<lparr>cr_event_id = e_event_id event, cr_status = confirmed,
                       cr_confirmed_at = Some confirmedAt, cr_was_escalated = False,
                       cr_message = None\<rparr>,
                logEvent env now (u_user_id user) (Some (e_event_id event))
                  ''checkin_confirmed'' confirmedAt ''ok'' None
                  (markConfirmed (e_event_id event) confirmedAt now db)))"

record SnoozeRequest =
  sq_event_id :: "ident option"
  sq_snooze_minutes :: "int option"

record SnoozeResponse =
  sr_event_id :: ident
  sr_status :: CheckinStatus
  sr_snoozed_until :: instant
  sr_original_deadline :: instant
  sr_new_deadline :: instant

text \<open>\<open>body.snooze_minutes || 10\<close>: an absent field and the number 0 are falsy.\<close>

definition snoozeMinutes :: "SnoozeRequest \<Rightarrow> int" where
  "snoozeMinutes body =
     (case sq_snooze_minutes body of None \<Rightarrow> 10 | Some m \<Rightarrow> if m = 0 then 10 else m)"

definition snooze ::
  "Env \<Rightarrow> instant \<Rightarrow> User \<Rightarrow> SnoozeRequest \<Rightarrow> DB \<Rightarrow> SnoozeResponse http \<times> DB" where
  "snooze env now user body db =
     (if \<not> truthy (sq_event_id body) then (HttpError 400 ''event_id is required'', db)
      else if snoozeMinutes body \<notin> set [5, 10, 15, 30]
      then (HttpError 400 ''snooze_minutes must be 5, 10, 15, or 30'', db)
      else
        case eventById db user (sq_event_id body) of
          None \<Rightarrow> (HttpError 404 ''Event not found'', db)
        | Some event \<Rightarrow>
            if e_snooze_count event \<ge> 1 then (HttpError 400 ''Already snoozed'', db)
            else if e_status event \<noteq> pending \<and> e_status event \<noteq> snoozed
            then (HttpError 400 ''Cannot snooze'', db)
            else
              let newDeadline = e_deadline_time event + snoozeMinutes body * 60 * 1000;
                  snoozedUntil = newDeadline;
                  db1 = updateEvents (\<lambda>e. e_event_id e = e_event_id event)
                          (\<lambda>e. e\<lparr>e_status := snoozed, e_snoozed_until := Some snoozedUntil,
                                  e_deadline_time := snoozedUntil,
                                  e_snooze_count := e_snooze_count e + 1,
                                  e_updated_at := now\<rparr>) db
              in (Ok200 \<lparr>sr_event_id = e_event_id event, sr_status = snoozed,
                         sr_snoozed_until = snoozedUntil,
                         sr_original_deadline = e_deadline_time event,
                         sr_new_deadline = snoozedUntil\<rparr>,
                  logEvent env now (u_user_id user) (Some (e_event_id event))
                    ''checkin_snoozed'' now ''ok''
                    (Some [(''snooze_minutes'', DNum (snoozeMinutes body)),
                           (''new_deadline'', DTime snoozedUntil)]) db1))"

section \<open>routes/settings.ts\<close>

text \<open>
  The \<open>pause_until\<close> field of a pause request, typed \<open>string | null\<close>: absent from
  the JSON body (\<open>undefined\<close>), \<open>null\<close>, or a text.
\<close>

datatype field = Absent | Null | Text string

record PauseRequest =
  pq_pause_until :: field

record PauseResponse =
  pr_paused :: bool
  pr_pause_until :: "string option"

text \<open>
  The branch for a falsy \<open>pause_until\<close>: \<open>null\<close> and the empty text are bound to the
  update as they are, and the response says that monitoring resumed.
\<close>

definition resume ::
  "Env \<Rightarrow> instant \<Rightarrow> User \<Rightarrow> string option \<Rightarrow> DB \<Rightarrow> PauseResponse http \<times> DB" where
  "resume env now user stored db =
     (let db1 = updateUsers (\<lambda>u. u_user_id u = u_user_id user)
                  (\<lambda>u. u\<lparr>u_pause_until := stored, u_updated_at := now\<rparr>) db
      in (Ok200 \<lparr>pr_paused = False, pr_pause_until = None\<rparr>,
          logEvent env now (u_user_id user) None ''monitoring_resumed'' now ''ok'' None db1))"

text \<open>
  \<open>POST /api/settings/pause\<close>. A truthy \<open>pause_until\<close> must parse as a date after
  \<open>now\<close>; what is stored is the text itself. An absent field skips the validation and
  is then bound to the update as \<open>undefined\<close>, which D1 refuses: the handler's catch
  answers 500 and nothing was written.
\<close>

definition pause ::
  "Env \<Rightarrow> instant \<Rightarrow> User \<Rightarrow> PauseRequest \<Rightarrow> DB \<Rightarrow> PauseResponse http \<times> DB" where
  "pause env now user body db =
     (case pq_pause_until body of
        Absent \<Rightarrow> (HttpError 500 ''Pause operation failed'', db)
      | Null \<Rightarrow> resume env now user None db
      | Text t \<Rightarrow>
          if t = [] then resume env now user (Some t) db
          else
            (case parseDate env t of
               None \<Rightarrow> (HttpError 400 ''Invalid pause_until date format'', db)
             | Some pauseDate \<Rightarrow>
                 if pauseDate \<le> now
                 then (HttpError 400 ''pause_until must be in the future'', db)
                 else
                   let db1 = updateUsers (\<lambda>u. u_user_id u = u_user_id user)
                               (\<lambda>u. u\<lparr>u_pause_until := Some t, u_updated_at := now\<rparr>) db;
                       db2 = updateEvents
                               (\<lambda>e. e_user_id e = u_user_id user
                                     \<and> (e_status e = pending \<or> e_status e = snoozed))
                               (\<lambda>e. e\<lparr>e_status := paused, e_updated_at := now\<rparr>) db1
                   in (Ok200 \<lparr>pr_paused = True, pr_pause_until = Some t\<rparr>,
                       logEvent env now (u_user_id user) None ''monitoring_paused'' now ''ok''
                         (Some [(''pause_until'', DText t)]) db2)))"

section \<open>The check-in state machine\<close>

text \<open>
  The legal transitions as the specification words them: pending may move to confirmed,
  snoozed, alerted or paused; snoozed to confirmed, alerted or paused; alerted to
  confirmed; confirmed and paused are terminal.
\<close>

fun legal_transition :: "CheckinStatus \<Rightarrow> CheckinStatus \<Rightarrow> bool" where
  "legal_transition pending t = (t = confirmed \<or> t = snoozed \<or> t = alerted \<or> t = paused)"
| "legal_transition snoozed t = (t = confirmed \<or> t = alerted \<or> t = paused)"
| "legal_transition alerted t = (t = confirmed)"
| "legal_transition confirmed t = False"
| "legal_transition paused t = False"
| "legal_transition missed t = False"

text \<open>
  The status changes an operation made: the rows of the events table before, paired with
  the same rows after, where the status differs.
\<close>

definition status_changes :: "DB \<Rightarrow> DB \<Rightarrow> (CheckinStatus \<times> CheckinStatus) list" where
  "status_changes db db' =
     filter (\<lambda>(s, t). s \<noteq> t)
       (zip (map e_status (checkin_events db)) (map e_status (checkin_events db')))"

text \<open>The row update of \<open>triggerEscalation\<close>, for the event id it is given.\<close>

definition markAlerted :: "instant \<Rightarrow> ident \<Rightarrow> CheckinEvent \<Rightarrow> CheckinEvent" where
  "markAlerted now eid e =
     (if e_event_id e = eid
      then e\<lparr>e_status := alerted, e_escalated_at := Some now, e_updated_at := now\<rparr> else e)"

text \<open>
  A row before and after an escalation run over the event ids \<open>ids\<close>: it keeps its id
  and its user, and it is either untouched or one of \<open>ids\<close> and now alerted.
\<close>

definition escalated :: "ident set \<Rightarrow> CheckinEvent \<Rightarrow> CheckinEvent \<Rightarrow> bool" where
  "escalated ids x y =
     (e_event_id y = e_event_id x \<and> e_user_id y = e_user_id x
      \<and> (y = x \<or> (e_event_id x \<in> ids \<and> e_status y = alerted)))"

section \<open>Delivery\<close>

text \<open>
  The outcome of one contact taken alone, against the database as it was when the
  escalation pass began: skipped for an SMS row already there, else an error with the
  thrown message when the phone number cannot be decrypted, else what the SMS provider
  answers.
\<close>

definition contactOutcome :: "Env \<Rightarrow> DB \<Rightarrow> ident \<Rightarrow> string \<Rightarrow> Contact \<Rightarrow> DeliveryReport" where
  "contactOutcome env db eventId message c =
     (if existingDelivery db eventId (c_contact_id c) \<noteq> None
      then report (c_contact_id c) ''already_exists'' None
      else case decrypt env (c_phone_enc c) of
             Inl thrown \<Rightarrow> report (c_contact_id c) ''error'' (Some thrown)
           | Inr phone \<Rightarrow>
               if success (twilio env phone message)
               then report (c_contact_id c) ''sent'' None
               else report (c_contact_id c) ''failed'' (errorMessage (twilio env phone message)))"

text \<open>The (event_id, contact_id, channel) of every delivery row, in row order.\<close>

definition deliveryKey :: "AlertDelivery \<Rightarrow> ident \<times> ident \<times> string" where
  "deliveryKey d = (d_event_id d, d_contact_id d, d_channel d)"

definition deliveryKeys :: "DB \<Rightarrow> (ident \<times> ident \<times> string) list" where
  "deliveryKeys db = map deliveryKey (alert_deliveries db)"

text \<open>No two delivery rows share (event_id, contact_id, channel).\<close>

definition uniqueDeliveries :: "DB \<Rightarrow> bool" where
  "uniqueDeliveries db = distinct (deliveryKeys db)"

text \<open>
  The device token that the push alert for a contact is delivered to, if it is sent and
  the sender does not throw.
\<close>

definition pushToken :: "Env \<Rightarrow> Contact \<Rightarrow> string option" where
  "pushToken env c =
     (case c_apns_token c of
        None \<Rightarrow> None
      | Some token \<Rightarrow>
          if c_has_app c \<noteq> 0 \<and> token \<noteq> [] \<and> sendContactAlert env token then Some token
          else None)"

text \<open>
  What is sent for one contact taken alone, against the database as it was when the
  escalation pass began: nothing when an SMS row is already there; else the push alert,
  if any, and then the SMS to the decrypted number, if there is one.
\<close>

definition contactMessages :: "Env \<Rightarrow> DB \<Rightarrow> ident \<Rightarrow> string \<Rightarrow> Contact \<Rightarrow> notification list" where
  "contactMessages env db eventId message c =
     (if existingDelivery db eventId (c_contact_id c) \<noteq> None then []
      else (case pushToken env c of None \<Rightarrow> [] | Some token \<Rightarrow> [ContactAlertTo token])
           @ (case decrypt env (c_phone_enc c) of
                Inl thrown \<Rightarrow> []
              | Inr phone \<Rightarrow> [SmsTo phone message]))"

text \<open>The SMS row of a delivery once the answer of the provider is stored in it.\<close>

definition recorded :: "instant \<Rightarrow> SendSMSResult \<Rightarrow> AlertDelivery \<Rightarrow> AlertDelivery" where
  "recorded now result d =
     (if success result
      then d\<lparr>d_status := sent, d_provider_ref := sid result,
             d_provider_status := sms_status result, d_sent_at := Some now,
             d_updated_at := now\<rparr>
      else d\<lparr>d_status := failed, d_error_message := errorMessage result,
             d_next_retry_at := Some (calculateNextRetry now 0), d_updated_at := now\<rparr>)"

text \<open>
  The delivery rows stored for one contact taken alone, with the generated delivery id
  left blank: none when an SMS row is already there; else the push row, if the push was
  sent and no push row of the contact existed, and then the SMS row with the answer of
  the provider, if the number could be decrypted.
\<close>

definition contactRows ::
  "Env \<Rightarrow> instant \<Rightarrow> DB \<Rightarrow> ident \<Rightarrow> string \<Rightarrow> Contact \<Rightarrow> AlertDelivery list" where
  "contactRows env now db eventId message c =
     (if existingDelivery db eventId (c_contact_id c) \<noteq> None then []
      else (case pushToken env c of
              None \<Rightarrow> []
            | Some token \<Rightarrow>
                if (eventId, c_contact_id c, ''push'') \<in> set (deliveryKeys db) then []
                else [pushDelivery [] eventId (c_contact_id c) now])
           @ (case decrypt env (c_phone_enc c) of
                Inl thrown \<Rightarrow> []
              | Inr phone \<Rightarrow>
                  [recorded now (twilio env phone message)
                     (smsDelivery [] eventId (c_contact_id c) now)]))"

definition withoutId :: "AlertDelivery \<Rightarrow> AlertDelivery" where
  "withoutId d = d\<lparr>d_delivery_id := []\<rparr>"

text \<open>
  The identifiers still to be drawn are pairwise distinct and none of them is the id of
  a delivery row: what is taken for granted of \<open>crypto.randomUUID()\<close>.
\<close>

definition freshIds :: "Env \<Rightarrow> DB \<Rightarrow> bool" where
  "freshIds env db =
     (inj_on (randomUUID env) {uuid_count db..}
      \<and> (\<forall>n \<ge> uuid_count db. randomUUID env n \<notin> d_delivery_id ` set (alert_deliveries db)))"


section \<open>A worked scenario\<close>

text \<open>
  Alice checks in at 09:00 with a grace window of ten minutes; instants are milliseconds
  of the first day of the epoch (09:00 is 32400000, 09:10 is 33000000). Bob, Carol and
  Dave are her contacts; Carol's stored phone number cannot be decrypted and Dave's
  number is refused by the SMS provider. Erin is a contact with the app installed.
\<close>

definition exampleEnv :: Env where
  "exampleEnv =
     \<lparr>randomUUID = (\<lambda>n. ''uuid-'' @ replicate n CHR ''i''),
      decrypt = (\<lambda>c. if c = ''garbled'' then Inl ''Cipher job failed''
                      else Inr (''+1555'' @ c)),
      twilio = (\<lambda>phone body.
         if phone = ''+15550003''
         then \<lparr>success = False, sid = None, sms_status = None, errorCode = Some 21211,
               errorMessage = Some ''Invalid number''\<rparr>
         else \<lparr>success = True, sid = Some ''SM1'', sms_status = Some ''queued'',
               errorCode = None, errorMessage = None\<rparr>),
      sendContactAlert = (\<lambda>token. token \<noteq> ''unreachable''),
      sendCheckinReminder = (\<lambda>token. True),
      parseDate = (\<lambda>t. if t = ''1970-01-01T06:00:00-05:00'' then Some 39600000
                        else if t = ''1970-01-01T08:59:00Z'' then Some 32340000
                        else None),
      constraintMessage = (\<lambda>idx. ''D1_ERROR: UNIQUE constraint failed: '' @ idx)\<rparr>"

definition alice :: User where
  "alice = \<lparr>u_user_id = ''u1'', u_name = Some ''Alice'', u_checkin_times = [(9, 0)],
            u_grace_minutes = 10, u_sms_alerts_enabled = 1, u_pause_until = None,
            u_apns_token = None, u_updated_at = 0\<rparr>"

definition bob :: Contact where
  "bob = \<lparr>c_contact_id = ''c1'', c_user_id = ''u1'', c_phone_enc = ''0001'', c_level = 1,
          c_has_app = 0, c_apns_token = None\<rparr>"

definition carol :: Contact where
  "carol = \<lparr>c_contact_id = ''c2'', c_user_id = ''u1'', c_phone_enc = ''garbled'', c_level = 1,
            c_has_app = 0, c_apns_token = None\<rparr>"

definition dave :: Contact where
  "dave = \<lparr>c_contact_id = ''c3'', c_user_id = ''u1'', c_phone_enc = ''0003'', c_level = 2,
           c_has_app = 0, c_apns_token = None\<rparr>"

definition erin :: Contact where
  "erin = \<lparr>c_contact_id = ''c4'', c_user_id = ''u1'', c_phone_enc = ''0004'', c_level = 1,
           c_has_app = 1, c_apns_token = Some ''token-erin''\<rparr>"

definition morningEvent :: "CheckinStatus \<Rightarrow> CheckinEvent" where
  "morningEvent st = (pendingEvent ''e1'' ''u1'' 32400000 33000000 32340000)\<lparr>e_status := st\<rparr>"

definition exampleDB :: "User list \<Rightarrow> Contact list \<Rightarrow> CheckinEvent list \<Rightarrow> AlertDelivery list \<Rightarrow> DB" where
  "exampleDB us cs evs ds =
     \<lparr>users = us, contacts = cs, checkin_events = evs, alert_deliveries = ds,
      event_logs = [], uuid_count = 0, outbox = []\<rparr>"

lemmas example_defs =
  exampleEnv_def alice_def bob_def carol_def dave_def erin_def morningEvent_def exampleDB_def
  pendingEvent_def

section \<open>Frame lemmas\<close>

lemma find_map_same:
  assumes "\<And>x. P (f x) = P x"
  shows "find P (map f xs) = map_option f (find P xs)"
  using assms by (induction xs) auto

lemma logEvent_events [simp]:
  "checkin_events (logEvent env now u e t tm r d db) = checkin_events db"
  by (simp add: logEvent_def generateUUID_def)

lemma eventById_logEvent [simp]:
  "eventById (logEvent env now u e t tm r d db) user i = eventById db user i"
  by (simp add: eventById_def)

lemma eventById_id:
  "eventById db user i = Some e \<Longrightarrow>
     Some (e_event_id e) = i \<and> e_user_id e = u_user_id user \<and> e \<in> set (checkin_events db)"
  unfolding eventById_def by (auto simp: find_Some_iff)

lemma eventById_updateEvents:
  assumes "eventById db user i = Some event"
    and "\<And>x. e_event_id (f x) = e_event_id x \<and> e_user_id (f x) = e_user_id x"
  shows "eventById (updateEvents (\<lambda>e. e_event_id e = e_event_id event) f db) user i
           = Some (f event)"
proof -
  let ?g = "\<lambda>e. if e_event_id e = e_event_id event then f e else e"
  let ?P = "\<lambda>e. Some (e_event_id e) = i \<and> e_user_id e = u_user_id user"
  have "find ?P (map ?g (checkin_events db)) = map_option ?g (find ?P (checkin_events db))"
    by (rule find_map_same) (simp add: assms(2))
  with assms(1) show ?thesis
    by (simp add: eventById_def updateEvents_def)
qed

section \<open>Retry backoff\<close>

lemma two_power_ge_32: "(32::int) \<le> 2 ^ (n + 5)"
proof -
  have "(2::int) ^ (n + 5) = 2 ^ n * 32"
    by (simp add: power_add)
  moreover have "(1::int) \<le> 2 ^ n"
    by simp
  ultimately show ?thesis
    by linarith
qed

text \<open>
  Claim C3. The retry delay in minutes is \<open>min (2 ^ retry_count) 30\<close>; for retry counts
  0 to 6 it is 1, 2, 4, 8, 16, 30, 30, it stays 30 from the fifth retry on, and the next
  retry time is the current time plus that many minutes.
\<close>

theorem backoff_sequence:
  "actualDelay n = min (2 ^ n) 30
   \<and> map actualDelay [0, 1, 2, 3, 4, 5, 6] = [1, 2, 4, 8, 16, 30, 30]
   \<and> actualDelay (n + 5) = 30
   \<and> calculateNextRetry now n = now + actualDelay n * 60000"
proof -
  have a: "actualDelay n = min (2 ^ n) 30"
    by (simp add: actualDelay_def delayMinutes_def maxDelayMinutes_def)
  have b: "map actualDelay [0, 1, 2, 3, 4, 5, 6] = [1, 2, 4, 8, 16, 30, 30]"
    by (simp add: actualDelay_def delayMinutes_def maxDelayMinutes_def)
  have c: "actualDelay (n + 5) = 30"
    using two_power_ge_32 [of n]
    by (simp add: actualDelay_def delayMinutes_def maxDelayMinutes_def)
  have d: "calculateNextRetry now n = now + actualDelay n * 60000"
    by (simp add: calculateNextRetry_def)
  from a b c d show ?thesis
    by blast
qed

section \<open>Snooze\<close>

lemma snooze_success_iff:
  "(\<exists>r d. snooze env now user body db = (Ok200 r, d)) \<longleftrightarrow>
      truthy (sq_event_id body) \<and> snoozeMinutes body \<in> {5, 10, 15, 30}
      \<and> (\<exists>e. eventById db user (sq_event_id body) = Some e
               \<and> (e_status e = pending \<or> e_status e = snoozed) \<and> e_snooze_count e < 1)"
  by (auto simp: snooze_def Let_def split: option.splits)






section \<open>Confirm\<close>

lemma confirm_already:
  assumes "findConfirmEvent db user body = Some event" and "e_status event = confirmed"
  shows "confirm env now user body db =
           (Ok200 \<lparr>cr_event_id = e_event_id event, cr_status = confirmed,
                   cr_confirmed_at = e_confirmed_at event, cr_was_escalated = False,
                   cr_message = Some ''Already confirmed''\<rparr>, db)"
  using assms by (simp add: confirm_def)

lemma confirm_found:
  assumes "findConfirmEvent db user body = Some event" and "e_status event \<noteq> confirmed"
  shows "\<exists>r d. confirm env now user body db = (Ok200 r, d)
      \<and> cr_event_id r = e_event_id event \<and> cr_status r = confirmed
      \<and> cr_confirmed_at r = Some (case rq_confirmed_at body of Some t \<Rightarrow> t | None \<Rightarrow> now)
      \<and> cr_was_escalated r = (e_status event = alerted)
      \<and> checkin_events d = checkin_events
           (markConfirmed (e_event_id event)
              (case rq_confirmed_at body of Some t \<Rightarrow> t | None \<Rightarrow> now) now db)"
  using assms by (simp add: confirm_def Let_def)

lemma confirm_synthesized:
  assumes "findConfirmEvent db user body = None"
    and "\<not> list_ex (\<lambda>x. e_user_id x = u_user_id user
              \<and> e_scheduled_time x = (case rq_scheduled_at body of Some t \<Rightarrow> t | None \<Rightarrow> now))
           (checkin_events db)"
  shows "\<exists>d. confirm env now user body db =
           (Ok200 \<lparr>cr_event_id = randomUUID env (uuid_count db), cr_status = confirmed,
                   cr_confirmed_at = Some (case rq_confirmed_at body of Some t \<Rightarrow> t | None \<Rightarrow> now),
                   cr_was_escalated = False,
                   cr_message = Some ''Check-in confirmed (new event created)''\<rparr>, d)
         \<and> checkin_events d = checkin_events db @
             [confirmedEvent (randomUUID env (uuid_count db)) (u_user_id user)
                (case rq_scheduled_at body of Some t \<Rightarrow> t | None \<Rightarrow> now)
                (case rq_confirmed_at body of Some t \<Rightarrow> t | None \<Rightarrow> now) now]
         \<and> event_logs d = event_logs db @
             [\<lparr>l_log_id = randomUUID env (Suc (uuid_count db)), l_user_id = u_user_id user,
               l_event_id = Some (randomUUID env (uuid_count db)),
               l_event_type = ''checkin_confirmed'',
               l_event_time = (case rq_confirmed_at body of Some t \<Rightarrow> t | None \<Rightarrow> now),
               l_result = ''ok'', l_details = None, l_created_at = now\<rparr>]"
  using assms
  by (simp add: confirm_def Let_def generateUUID_def insertEvent_def confirmedEvent_def
      logEvent_def)

lemma snooze_not_found:
  assumes "truthy (sq_event_id body) \<and> snoozeMinutes body \<in> {5, 10, 15, 30}
           \<and> eventById db user (sq_event_id body) = None"
  shows "snooze env now user body db = (HttpError 404 ''Event not found'', db)"
  using assms by (simp add: snooze_def)

text \<open>
  Claim C6, as stated, fails on both sides. A snooze request for an event id that matches
  no event is answered 400 for its minutes (7 is not on the menu), not 404: the fields
  are validated before the lookup. A confirm request that matches no event by id, carries
  no scheduled time and finds no pending or snoozed event, arriving at the very instant
  at which the user's confirmed event was scheduled, is answered 500: the synthesized
  row takes the current time as its scheduled time and violates the unique index on
  (user_id, scheduled_time); nothing is stored or logged. The same happens to a request
  with an unknown event id and the \<open>scheduled_at\<close> of an event the user has: the lookup
  is by id alone.
\<close>

theorem not_found_counterexample:
  "eventById (exampleDB [alice] [] [morningEvent pending] []) alice (Some ''e9'') = None
   \<and> snooze exampleEnv 32500000 alice \<lparr>sq_event_id = Some ''e9'', sq_snooze_minutes = Some 7\<rparr>
        (exampleDB [alice] [] [morningEvent pending] [])
      = (HttpError 400 ''snooze_minutes must be 5, 10, 15, or 30'',
         exampleDB [alice] [] [morningEvent pending] [])
   \<and> findConfirmEvent (exampleDB [alice] [] [morningEvent confirmed] []) alice
        \<lparr>rq_event_id = Some ''e9'', rq_scheduled_at = None, rq_confirmed_at = None\<rparr> = None
   \<and> confirm exampleEnv 32400000 alice
        \<lparr>rq_event_id = Some ''e9'', rq_scheduled_at = None, rq_confirmed_at = None\<rparr>
        (exampleDB [alice] [] [morningEvent confirmed] [])
      = (HttpError 500 ''Confirmation failed'',
         (exampleDB [alice] [] [morningEvent confirmed] [])\<lparr>uuid_count := 1\<rparr>)
   \<and> findConfirmEvent (exampleDB [alice] [] [morningEvent pending] []) alice
        \<lparr>rq_event_id = Some ''e9'', rq_scheduled_at = Some 32400000,
         rq_confirmed_at = Some 32460000\<rparr> = None
   \<and> confirm exampleEnv 32500000 alice
        \<lparr>rq_event_id = Some ''e9'', rq_scheduled_at = Some 32400000,
         rq_confirmed_at = Some 32460000\<rparr>
        (exampleDB [alice] [] [morningEvent pending] [])
      = (HttpError 500 ''Confirmation failed'',
         (exampleDB [alice] [] [morningEvent pending] [])\<lparr>uuid_count := 1\<rparr>)"
  by (simp add: snooze_def snoozeMinutes_def eventById_def findConfirmEvent_def confirm_def
      insertEvent_def generateUUID_def confirmedEvent_def first_def example_defs)

text \<open>
  Claim C6, amended. A snooze request with a non-empty event id and minutes in effect on
  the menu, whose event id matches no event of the user, is answered 404
  \<open>Event not found\<close> and changes nothing. A confirm request whose lookup (by event id
  when it carries one, else by exact scheduled time when it carries one, else the latest
  pending or snoozed event) finds nothing, for a user with no event at the scheduled time
  the new row takes (\<open>scheduled_at\<close>, or the current time), succeeds: it appends an
  event already in status confirmed and logs \<open>checkin_confirmed\<close> for it.
\<close>

theorem not_found_asymmetry:
  "(truthy (sq_event_id sbody) \<and> snoozeMinutes sbody \<in> {5, 10, 15, 30}
      \<and> eventById db user (sq_event_id sbody) = None \<longrightarrow>
      snooze env now user sbody db = (HttpError 404 ''Event not found'', db))
   \<and> (findConfirmEvent db user body = None
      \<and> \<not> list_ex (\<lambda>x. e_user_id x = u_user_id user
              \<and> e_scheduled_time x = (case rq_scheduled_at body of Some t \<Rightarrow> t | None \<Rightarrow> now))
           (checkin_events db) \<longrightarrow>
      (\<exists>d. confirm env now user body db =
           (Ok200 \<lparr>cr_event_id = randomUUID env (uuid_count db), cr_status = confirmed,
                   cr_confirmed_at = Some (case rq_confirmed_at body of Some t \<Rightarrow> t | None \<Rightarrow> now),
                   cr_was_escalated = False,
                   cr_message = Some ''Check-in confirmed (new event created)''\<rparr>, d)
         \<and> checkin_events d = checkin_events db @
             [confirmedEvent (randomUUID env (uuid_count db)) (u_user_id user)
                (case rq_scheduled_at body of Some t \<Rightarrow> t | None \<Rightarrow> now)
                (case rq_confirmed_at body of Some t \<Rightarrow> t | None \<Rightarrow> now) now]
         \<and> event_logs d = event_logs db @
             [\<lparr>l_log_id = randomUUID env (Suc (uuid_count db)), l_user_id = u_user_id user,
               l_event_id = Some (randomUUID env (uuid_count db)),
               l_event_type = ''checkin_confirmed'',
               l_event_time = (case rq_confirmed_at body of Some t \<Rightarrow> t | None \<Rightarrow> now),
               l_result = ''ok'', l_details = None, l_created_at = now\<rparr>]))"
  using snooze_not_found [of sbody db user env now] confirm_synthesized [of db user body now env]
  by blast

text \<open>
  Alice has one pending event \<open>e1\<close>; requests naming \<open>e9\<close> are answered 404 by snooze
  and by a synthesized confirmed event by confirm.
\<close>

theorem not_found_asymmetry_witness:
  "snooze exampleEnv 32500000 alice \<lparr>sq_event_id = Some ''e9'', sq_snooze_minutes = Some 10\<rparr>
        (exampleDB [alice] [] [morningEvent pending] [])
      = (HttpError 404 ''Event not found'', exampleDB [alice] [] [morningEvent pending] [])
   \<and> (\<exists>d. confirm exampleEnv 32500000 alice
        \<lparr>rq_event_id = Some ''e9'', rq_scheduled_at = None, rq_confirmed_at = Some 32460000\<rparr>
        (exampleDB [alice] [] [morningEvent pending] [])
      = (Ok200 \<lparr>cr_event_id = ''uuid-'', cr_status = confirmed,
                cr_confirmed_at = Some 32460000, cr_was_escalated = False,
                cr_message = Some ''Check-in confirmed (new event created)''\<rparr>, d)
      \<and> map e_status (checkin_events d) = [pending, confirmed]
      \<and> map l_event_type (event_logs d) = [''checkin_confirmed''])"
proof -
  let ?db = "exampleDB [alice] [] [morningEvent pending] []"
  let ?sbody = "\<lparr>sq_event_id = Some ''e9'', sq_snooze_minutes = Some 10\<rparr>"
  let ?body = "\<lparr>rq_event_id = Some ''e9'', rq_scheduled_at = None, rq_confirmed_at = Some 32460000\<rparr>"
  have s: "truthy (sq_event_id ?sbody) \<and> snoozeMinutes ?sbody \<in> {5, 10, 15, 30}
      \<and> eventById ?db alice (sq_event_id ?sbody) = None"
    by (simp add: snoozeMinutes_def eventById_def example_defs)
  have c: "findConfirmEvent ?db alice ?body = None
      \<and> \<not> list_ex (\<lambda>x. e_user_id x = u_user_id alice
              \<and> e_scheduled_time x = (case rq_scheduled_at ?body of Some t \<Rightarrow> t | None \<Rightarrow> 32500000))
           (checkin_events ?db)"
    by (simp add: findConfirmEvent_def eventById_def example_defs)
  note t = not_found_asymmetry [of ?sbody ?db alice exampleEnv 32500000 ?body]
  from t s have 1: "snooze exampleEnv 32500000 alice ?sbody ?db = (HttpError 404 ''Event not found'', ?db)"
    by blast
  from t c obtain d where d: "confirm exampleEnv 32500000 alice ?body ?db =
           (Ok200 \<lparr>cr_event_id = randomUUID exampleEnv (uuid_count ?db), cr_status = confirmed,
                   cr_confirmed_at = Some (case rq_confirmed_at ?body of Some t \<Rightarrow> t | None \<Rightarrow> 32500000),
                   cr_was_escalated = False,
                   cr_message = Some ''Check-in confirmed (new event created)''\<rparr>, d)"
    and e: "checkin_events d = checkin_events ?db @
             [confirmedEvent (randomUUID exampleEnv (uuid_count ?db)) (u_user_id alice)
                (case rq_scheduled_at ?body of Some t \<Rightarrow> t | None \<Rightarrow> 32500000)
                (case rq_confirmed_at ?body of Some t \<Rightarrow> t | None \<Rightarrow> 32500000) 32500000]"
    and l: "event_logs d = event_logs ?db @
             [\<lparr>l_log_id = randomUUID exampleEnv (Suc (uuid_count ?db)), l_user_id = u_user_id alice,
               l_event_id = Some (randomUUID exampleEnv (uuid_count ?db)),
               l_event_type = ''checkin_confirmed'',
               l_event_time = (case rq_confirmed_at ?body of Some t \<Rightarrow> t | None \<Rightarrow> 32500000),
               l_result = ''ok'', l_details = None, l_created_at = 32500000\<rparr>]"
    by blast
  have 2: "\<exists>d. confirm exampleEnv 32500000 alice ?body ?db
      = (Ok200 \<lparr>cr_event_id = ''uuid-'', cr_status = confirmed,
                cr_confirmed_at = Some 32460000, cr_was_escalated = False,
                cr_message = Some ''Check-in confirmed (new event created)''\<rparr>, d)
      \<and> map e_status (checkin_events d) = [pending, confirmed]
      \<and> map l_event_type (event_logs d) = [''checkin_confirmed'']"
    using d e l by (intro exI [of _ d]) (simp add: confirmedEvent_def example_defs)
  from 1 2 show ?thesis
    by (rule conjI)
qed


lemma first_in_set: "first xs = Some x \<Longrightarrow> x \<in> set xs"
  by (cases xs) (simp_all add: first_def)

lemma findConfirmEvent_in:
  assumes "findConfirmEvent db user body = Some e"
  shows "e \<in> set (checkin_events db) \<and> e_user_id e = u_user_id user"
proof (cases "truthy (rq_event_id body)")
  case True
  with assms show ?thesis
    by (auto simp: findConfirmEvent_def dest: eventById_id)
next
  case False
  show ?thesis
  proof (cases "rq_scheduled_at body")
    case None
    with False assms have "e \<in> set (filter (\<lambda>e. e_user_id e = u_user_id user
                                      \<and> (e_status e = pending \<or> e_status e = snoozed))
                               (checkin_events db))"
      by (auto simp: findConfirmEvent_def dest!: first_in_set)
    then show ?thesis by simp
  next
    case (Some t)
    with False assms show ?thesis
      by (auto simp: findConfirmEvent_def find_Some_iff)
  qed
qed

text \<open>
  Claim C5. Confirming an event that is already confirmed returns success with the
  stored \<open>confirmed_at\<close> and leaves the database, the audit log with it, as it was.
  For a request that names an existing event by its id, a second confirm of that id after
  the first returns the first call's \<open>confirmed_at\<close> and changes nothing.
\<close>

theorem confirm_idempotent:
  assumes found: "findConfirmEvent db user body = Some event"
  shows "(e_status event = confirmed \<longrightarrow>
            confirm env now user body db =
              (Ok200 \<lparr>cr_event_id = e_event_id event, cr_status = confirmed,
                      cr_confirmed_at = e_confirmed_at event, cr_was_escalated = False,
                      cr_message = Some ''Already confirmed''\<rparr>, db))
       \<and> (truthy (rq_event_id body) \<and> rq_event_id body' = rq_event_id body \<longrightarrow>
            (\<exists>r db1. confirm env now user body db = (Ok200 r, db1)
               \<and> confirm env now' user body' db1 =
                   (Ok200 (r\<lparr>cr_was_escalated := False, cr_message := Some ''Already confirmed''\<rparr>),
                    db1)))"
proof -
  have one: "e_status event = confirmed \<longrightarrow>
            confirm env now user body db =
              (Ok200 \<lparr>cr_event_id = e_event_id event, cr_status = confirmed,
                      cr_confirmed_at = e_confirmed_at event, cr_was_escalated = False,
                      cr_message = Some ''Already confirmed''\<rparr>, db)"
    using found by (simp add: confirm_already)
  have two: "\<exists>r db1. confirm env now user body db = (Ok200 r, db1)
               \<and> confirm env now' user body' db1 =
                   (Ok200 (r\<lparr>cr_was_escalated := False, cr_message := Some ''Already confirmed''\<rparr>),
                    db1)"
    if a: "truthy (rq_event_id body) \<and> rq_event_id body' = rq_event_id body"
  proof -
    from a found have f: "eventById db user (rq_event_id body) = Some event"
      by (simp add: findConfirmEvent_def)
    have look: "\<And>d. findConfirmEvent d user body' = eventById d user (rq_event_id body)"
      using a by (simp add: findConfirmEvent_def)
    show ?thesis
    proof (cases "e_status event = confirmed")
      case True
      have 1: "confirm env now user body db =
                 (Ok200 \<lparr>cr_event_id = e_event_id event, cr_status = confirmed,
                         cr_confirmed_at = e_confirmed_at event, cr_was_escalated = False,
                         cr_message = Some ''Already confirmed''\<rparr>, db)"
        using found True by (rule confirm_already)
      have 2: "confirm env now' user body' db =
                 (Ok200 \<lparr>cr_event_id = e_event_id event, cr_status = confirmed,
                         cr_confirmed_at = e_confirmed_at event, cr_was_escalated = False,
                         cr_message = Some ''Already confirmed''\<rparr>, db)"
        using True f look [of db] by (intro confirm_already) simp_all
      from 1 2 show ?thesis
        by simp
    next
      case False
      define c where "c = (case rq_confirmed_at body of Some t \<Rightarrow> t | None \<Rightarrow> now)"
      define ev' where
        "ev' = event\<lparr>e_status := confirmed, e_confirmed_at := Some c, e_updated_at := now\<rparr>"
      from confirm_found [OF found False, of env now]
      obtain r db1 where 1: "confirm env now user body db = (Ok200 r, db1)"
        and r: "cr_event_id r = e_event_id event" "cr_status r = confirmed"
          "cr_confirmed_at r = Some c"
        and d: "checkin_events db1 = checkin_events (markConfirmed (e_event_id event) c now db)"
        unfolding c_def by blast
      have "eventById (markConfirmed (e_event_id event) c now db) user (rq_event_id body)
              = Some ev'"
        unfolding markConfirmed_def ev'_def using f by (rule eventById_updateEvents) simp
      then have "eventById db1 user (rq_event_id body) = Some ev'"
        using d by (simp add: eventById_def)
      then have "findConfirmEvent db1 user body' = Some ev'"
        by (simp add: look)
      moreover have "e_status ev' = confirmed"
        by (simp add: ev'_def)
      ultimately have "confirm env now' user body' db1 =
          (Ok200 \<lparr>cr_event_id = e_event_id ev', cr_status = confirmed,
                  cr_confirmed_at = e_confirmed_at ev', cr_was_escalated = False,
                  cr_message = Some ''Already confirmed''\<rparr>, db1)"
        by (rule confirm_already)
      moreover have "\<lparr>cr_event_id = e_event_id ev', cr_status = confirmed,
                      cr_confirmed_at = e_confirmed_at ev', cr_was_escalated = False,
                      cr_message = Some ''Already confirmed''\<rparr>
           = r\<lparr>cr_was_escalated := False, cr_message := Some ''Already confirmed''\<rparr>"
        using r by (simp add: ev'_def)
      ultimately show ?thesis
        using 1 by simp
    qed
  qed
  from one two show ?thesis
    by blast
qed

text \<open>
  Alice's event was confirmed at 09:01; a confirm at 09:05 returns 09:01.
\<close>

theorem confirm_idempotent_witness:
  "confirm exampleEnv 32700000 alice
      \<lparr>rq_event_id = Some ''e1'', rq_scheduled_at = None, rq_confirmed_at = Some 32700000\<rparr>
      (exampleDB [alice] [] [(morningEvent confirmed)\<lparr>e_confirmed_at := Some 32460000\<rparr>] [])
   = (Ok200 \<lparr>cr_event_id = ''e1'', cr_status = confirmed, cr_confirmed_at = Some 32460000,
             cr_was_escalated = False, cr_message = Some ''Already confirmed''\<rparr>,
      exampleDB [alice] [] [(morningEvent confirmed)\<lparr>e_confirmed_at := Some 32460000\<rparr>] [])"
proof -
  let ?ev = "(morningEvent confirmed)\<lparr>e_confirmed_at := Some 32460000\<rparr>"
  let ?db = "exampleDB [alice] [] [?ev] []"
  let ?body = "\<lparr>rq_event_id = Some ''e1'', rq_scheduled_at = None, rq_confirmed_at = Some 32700000\<rparr>"
  have f: "findConfirmEvent ?db alice ?body = Some ?ev"
    by (simp add: findConfirmEvent_def eventById_def example_defs)
  have s: "e_status ?ev = confirmed"
    by (simp add: example_defs)
  from confirm_idempotent [OF f, of exampleEnv 32700000 ?body 0] s
  have "confirm exampleEnv 32700000 alice ?body ?db =
              (Ok200 \<lparr>cr_event_id = e_event_id ?ev, cr_status = confirmed,
                      cr_confirmed_at = e_confirmed_at ?ev, cr_was_escalated = False,
                      cr_message = Some ''Already confirmed''\<rparr>, ?db)"
    by blast
  then show ?thesis
    by (simp add: example_defs)
qed

text \<open>
  Claim C10, as stated, fails: a confirm request that carries \<open>confirmed_at\<close> for an
  event already confirmed is answered with the stored timestamp, not the client's, and
  stores nothing.
\<close>

theorem confirm_timestamp_counterexample:
  "confirm exampleEnv 32700000 alice
      \<lparr>rq_event_id = Some ''e1'', rq_scheduled_at = None, rq_confirmed_at = Some 32690000\<rparr>
      (exampleDB [alice] [] [(morningEvent confirmed)\<lparr>e_confirmed_at := Some 32460000\<rparr>] [])
   = (Ok200 \<lparr>cr_event_id = ''e1'', cr_status = confirmed, cr_confirmed_at = Some 32460000,
             cr_was_escalated = False, cr_message = Some ''Already confirmed''\<rparr>,
      exampleDB [alice] [] [(morningEvent confirmed)\<lparr>e_confirmed_at := Some 32460000\<rparr>] [])
   \<and> Some (32460000::int) \<noteq> Some 32690000"
  by (simp add: confirm_def findConfirmEvent_def eventById_def example_defs)

text \<open>
  Claim C10, amended. For every confirm request that succeeds on an event not already
  confirmed (or finds none and synthesizes one), the timestamp returned and stored on
  the event is the client's \<open>confirmed_at\<close>, whatever instant it names, and the
  server's clock when the request carries none.
\<close>

theorem confirm_timestamp:
  assumes ok: "confirm env now user body db = (Ok200 r, d)"
    and fresh: "map_option e_status (findConfirmEvent db user body) \<noteq> Some confirmed"
  shows "cr_confirmed_at r = Some (case rq_confirmed_at body of Some t \<Rightarrow> t | None \<Rightarrow> now)
     \<and> list_ex (\<lambda>e. e_event_id e = cr_event_id r \<and> e_user_id e = u_user_id user
                   \<and> e_status e = confirmed
                   \<and> e_confirmed_at e = Some (case rq_confirmed_at body of Some t \<Rightarrow> t | None \<Rightarrow> now))
          (checkin_events d)"
proof (cases "findConfirmEvent db user body")
  case None
  with ok show ?thesis
    by (auto simp: confirm_def Let_def generateUUID_def insertEvent_def confirmedEvent_def
        list_ex_iff split: if_splits)
next
  case (Some event)
  with fresh have ns: "e_status event \<noteq> confirmed"
    by simp
  let ?c = "case rq_confirmed_at body of Some t \<Rightarrow> t | None \<Rightarrow> now"
  from confirm_found [OF Some ns, of env now] ok
  have r: "cr_event_id r = e_event_id event" "cr_confirmed_at r = Some ?c"
    and d: "checkin_events d = checkin_events (markConfirmed (e_event_id event) ?c now db)"
    by auto
  from findConfirmEvent_in [OF Some]
  have in_db: "event \<in> set (checkin_events db)" "e_user_id event = u_user_id user"
    by simp_all
  let ?ev = "event\<lparr>e_status := confirmed, e_confirmed_at := Some ?c, e_updated_at := now\<rparr>"
  from in_db have "?ev \<in> set (checkin_events d)"
    unfolding d markConfirmed_def updateEvents_def by (simp add: image_iff) force
  moreover have "e_event_id ?ev = cr_event_id r \<and> e_user_id ?ev = u_user_id user
      \<and> e_status ?ev = confirmed \<and> e_confirmed_at ?ev = Some ?c"
    using r in_db by simp
  ultimately have "list_ex (\<lambda>e. e_event_id e = cr_event_id r \<and> e_user_id e = u_user_id user
                   \<and> e_status e = confirmed \<and> e_confirmed_at e = Some ?c) (checkin_events d)"
    unfolding list_ex_iff by (rule rev_bexI)
  with r show ?thesis
    by simp
qed

text \<open>
  A client timestamp of one millisecond after the epoch is stored as it is.
\<close>

theorem confirm_timestamp_witness:
  "\<exists>d. confirm exampleEnv 32700000 alice
      \<lparr>rq_event_id = Some ''e1'', rq_scheduled_at = None, rq_confirmed_at = Some 1\<rparr>
      (exampleDB [alice] [] [morningEvent pending] [])
   = (Ok200 \<lparr>cr_event_id = ''e1'', cr_status = confirmed, cr_confirmed_at = Some 1,
             cr_was_escalated = False, cr_message = None\<rparr>, d)
   \<and> map e_confirmed_at (checkin_events d) = [Some 1]"
proof -
  let ?db = "exampleDB [alice] [] [morningEvent pending] []"
  let ?body = "\<lparr>rq_event_id = Some ''e1'', rq_scheduled_at = None, rq_confirmed_at = Some 1\<rparr>"
  let ?r = "\<lparr>cr_event_id = ''e1'', cr_status = confirmed, cr_confirmed_at = Some 1,
             cr_was_escalated = False, cr_message = None\<rparr>"
  define d where "d = snd (confirm exampleEnv 32700000 alice ?body ?db)"
  have "fst (confirm exampleEnv 32700000 alice ?body ?db) = Ok200 ?r"
    by (simp add: confirm_def findConfirmEvent_def eventById_def example_defs)
  then have ok: "confirm exampleEnv 32700000 alice ?body ?db = (Ok200 ?r, d)"
    unfolding d_def by (simp add: prod_eq_iff)
  have fresh: "map_option e_status (findConfirmEvent ?db alice ?body) \<noteq> Some confirmed"
    by (simp add: findConfirmEvent_def eventById_def example_defs)
  have len: "length (checkin_events d) = 1"
    unfolding d_def
    by (simp add: confirm_def findConfirmEvent_def eventById_def markConfirmed_def
        updateEvents_def example_defs)
  from confirm_timestamp [OF ok fresh]
  have "list_ex (\<lambda>e. e_confirmed_at e = Some 1) (checkin_events d)"
    by (simp add: list_ex_iff) blast
  with len have "map e_confirmed_at (checkin_events d) = [Some 1]"
    by (cases "checkin_events d") simp_all
  with ok have "confirm exampleEnv 32700000 alice ?body ?db = (Ok200 ?r, d)
      \<and> map e_confirmed_at (checkin_events d) = [Some 1]"
    by (rule conjI)
  then show ?thesis
    by (rule exI)
qed

section \<open>What escalation leaves alone\<close>

lemma pushContact_frame [simp]:
  "checkin_events (pushContact env now eid c db) = checkin_events db"
  "users (pushContact env now eid c db) = users db"
  "contacts (pushContact env now eid c db) = contacts db"
  by (simp_all add: pushContact_def insertDelivery_def generateUUID_def Let_def
      split: option.splits sum.splits)

lemma alertContact_frame [simp]:
  "checkin_events (fst (alertContact env now eid msg c st)) = checkin_events (fst st)"
  "users (fst (alertContact env now eid msg c st)) = users (fst st)"
  "contacts (fst (alertContact env now eid msg c st)) = contacts (fst st)"
  by (simp_all add: alertContact_def insertDelivery_def updateDeliveries_def
      generateUUID_def Let_def split: option.splits sum.splits)

lemma fold_alertContact_frame [simp]:
  "checkin_events (fst (fold (alertContact env now eid msg) cs st)) = checkin_events (fst st)"
  "users (fst (fold (alertContact env now eid msg) cs st)) = users (fst st)"
  "contacts (fst (fold (alertContact env now eid msg) cs st)) = contacts (fst st)"
  by (induction cs arbitrary: st) simp_all

lemma logEvent_frame [simp]:
  "users (logEvent env now u e t tm r d db) = users db"
  "contacts (logEvent env now u e t tm r d db) = contacts db"
  "alert_deliveries (logEvent env now u e t tm r d db) = alert_deliveries db"
  "outbox (logEvent env now u e t tm r d db) = outbox db"
  by (simp_all add: logEvent_def generateUUID_def)

lemma triggerEscalation_events:
  "checkin_events (snd (triggerEscalation env now eid db)) =
     (if eventWithUser db eid = None then checkin_events db
      else map (markAlerted now eid) (checkin_events db))"
  by (auto simp: triggerEscalation_def updateEvents_def Let_def markAlerted_def
      split: option.splits prod.splits)

lemma triggerEscalation_users [simp]:
  "users (snd (triggerEscalation env now eid db)) = users db"
  by (auto simp: triggerEscalation_def updateEvents_def Let_def
      split: option.splits prod.splits)


lemma escalated_step:
  assumes "escalated S x y"
  shows "escalated (insert eid S) x (markAlerted now eid y)"
  using assms by (auto simp: escalated_def markAlerted_def)

lemma escalated_mono: "escalated S x y \<Longrightarrow> S \<subseteq> T \<Longrightarrow> escalated T x y"
  by (auto simp: escalated_def)

lemma fold_triggerEscalation_events:
  assumes "list_all2 (escalated S) evs0 (checkin_events db)"
  shows "list_all2 (escalated (S \<union> e_event_id ` set es)) evs0
           (checkin_events (fold (\<lambda>e d. snd (triggerEscalation env now (e_event_id e) d)) es db))"
  using assms
proof (induction es arbitrary: db S)
  case Nil
  then show ?case by simp
next
  case (Cons e es)
  let ?db1 = "snd (triggerEscalation env now (e_event_id e) db)"
  have "list_all2 (escalated (insert (e_event_id e) S)) evs0 (checkin_events ?db1)"
  proof (cases "eventWithUser db (e_event_id e) = None")
    case True
    then have "checkin_events ?db1 = checkin_events db"
      by (simp add: triggerEscalation_events)
    with Cons.prems show ?thesis
      by (auto elim!: list_all2_mono escalated_mono)
  next
    case False
    then have "checkin_events ?db1 = map (markAlerted now (e_event_id e)) (checkin_events db)"
      by (auto simp: triggerEscalation_events)
    with Cons.prems show ?thesis
      by (auto simp: list_all2_map2 elim!: list_all2_mono escalated_step)
  qed
  from Cons.IH [OF this] show ?case
    by simp
qed

lemma handleEscalations_events:
  "list_all2 (escalated (e_event_id ` set (overdueEvents now db))) (checkin_events db)
     (checkin_events (handleEscalations env now db))"
proof -
  have "list_all2 (escalated {}) (checkin_events db) (checkin_events db)"
    by (simp add: list_all2_same escalated_def)
  from fold_triggerEscalation_events [OF this] show ?thesis
    by (simp add: handleEscalations_def)
qed

lemma overdueEvents_in:
  assumes "e \<in> set (overdueEvents now db)"
  shows "e \<in> set (checkin_events db) \<and> (e_status e = pending \<or> e_status e = snoozed)
         \<and> e_deadline_time e < now
         \<and> (\<exists>u \<in> set (users db). u_user_id u = e_user_id e \<and> notPaused now u)"
  using assms by (auto simp: overdueEvents_def)

lemma same_id_same_row:
  assumes "distinct (map e_event_id evs)" "x \<in> set evs" "y \<in> set evs"
    "e_event_id x = e_event_id y"
  shows "x = y"
  using assms by (meson distinct_map inj_onD)

lemma escalated_overdue:
  assumes pk: "distinct (map e_event_id (checkin_events db))"
    and x: "x \<in> set (checkin_events db)"
    and e: "escalated (e_event_id ` set (overdueEvents now db)) x y"
    and ne: "y \<noteq> x"
  shows "x \<in> set (overdueEvents now db) \<and> e_status y = alerted"
proof -
  from e ne obtain ov where ov: "ov \<in> set (overdueEvents now db)"
      "e_event_id x = e_event_id ov"
    and y: "e_status y = alerted"
    by (auto simp: escalated_def)
  from ov(1) have "ov \<in> set (checkin_events db)"
    by (simp add: overdueEvents_in)
  with pk x ov(2) have "x = ov"
    by (intro same_id_same_row [of "checkin_events db"])
  with ov(1) y show ?thesis
    by simp
qed

lemma status_changes_iff:
  "(s, t) \<in> set (status_changes db db') \<longleftrightarrow>
     s \<noteq> t \<and> (\<exists>(x, y) \<in> set (zip (checkin_events db) (checkin_events db')).
                  s = e_status x \<and> t = e_status y)"
  by (auto simp: status_changes_def zip_map_map)

lemma zip_map_self:
  "set (zip xs (map f xs)) = (\<lambda>x. (x, f x)) ` set xs"
  by (induction xs) auto

lemma zip_append_self: "set (zip xs (xs @ ys)) = (\<lambda>x. (x, x)) ` set xs"
  by (induction xs) auto

lemma escalation_changes:
  assumes pk: "distinct (map e_event_id (checkin_events db))"
  shows "list_all (\<lambda>(s, t). (s = pending \<or> s = snoozed) \<and> t = alerted)
           (status_changes db (handleEscalations env now db))"
proof -
  have "(s = pending \<or> s = snoozed) \<and> t = alerted"
    if "(s, t) \<in> set (status_changes db (handleEscalations env now db))" for s t
  proof -
    from that obtain x y where st: "s \<noteq> t" "s = e_status x" "t = e_status y"
      and z: "(x, y) \<in> set (zip (checkin_events db) (checkin_events (handleEscalations env now db)))"
      by (auto simp: status_changes_iff)
    from z have x: "x \<in> set (checkin_events db)"
      by (rule set_zip_leftD)
    from z handleEscalations_events [of now db env]
    have e: "escalated (e_event_id ` set (overdueEvents now db)) x y"
      by (auto simp: list_all2_iff)
    from st have "y \<noteq> x" by auto
    from escalated_overdue [OF pk x e this] overdueEvents_in [of x now db] st
    show ?thesis by simp
  qed
  then show ?thesis
    by (auto simp: list_all_iff)
qed

lemma snooze_changes:
  assumes pk: "distinct (map e_event_id (checkin_events db))"
  shows "list_all (\<lambda>(s, t). s = pending \<and> t = snoozed)
           (status_changes db (snd (snooze env now user sbody db)))"
proof (cases "\<exists>r d. snooze env now user sbody db = (Ok200 r, d)")
  case False
  then have "snd (snooze env now user sbody db) = db"
    by (auto simp: snooze_def Let_def split: option.splits if_splits)
  then show ?thesis
    by (auto simp: list_all_iff status_changes_iff zip_same)
next
  case True
  then obtain r d e where ok: "snooze env now user sbody db = (Ok200 r, d)"
    and e: "eventById db user (sq_event_id sbody) = Some e"
      "e_status e = pending \<or> e_status e = snoozed"
    using snooze_success_iff [of env now user sbody db] by blast
  let ?f = "\<lambda>x. if e_event_id x = e_event_id e
                  then x\<lparr>e_status := snoozed,
                          e_snoozed_until := Some (e_deadline_time e + snoozeMinutes sbody * 60 * 1000),
                          e_deadline_time := e_deadline_time e + snoozeMinutes sbody * 60 * 1000,
                          e_snooze_count := e_snooze_count x + 1, e_updated_at := now\<rparr>
                  else x"
  from ok e have d: "checkin_events d = map ?f (checkin_events db)"
    by (auto simp: snooze_def Let_def updateEvents_def split: option.splits if_splits)
  have "s = pending \<and> t = snoozed" if "(s, t) \<in> set (status_changes db d)" for s t
  proof -
    from that obtain x where x: "x \<in> set (checkin_events db)" "s = e_status x"
      "t = e_status (?f x)" "s \<noteq> t"
      by (auto simp: status_changes_iff d zip_map_self)
    then have "e_event_id x = e_event_id e"
      by (auto split: if_splits)
    with pk x(1) eventById_id [OF e(1)] have "x = e"
      by (intro same_id_same_row [of "checkin_events db"]) simp_all
    with x e(2) show ?thesis
      by auto
  qed
  with ok show ?thesis
    by (auto simp: list_all_iff)
qed

lemma confirm_changes:
  assumes pk: "distinct (map e_event_id (checkin_events db))"
  shows "list_all (\<lambda>(s, t). t = confirmed
             \<and> (legal_transition s t \<or> s = paused \<or> s = missed)
             \<and> (s = alerted \<longrightarrow>
                  (\<exists>r. fst (confirm env now user body db) = Ok200 r \<and> cr_was_escalated r)))
           (status_changes db (snd (confirm env now user body db)))"
proof (cases "findConfirmEvent db user body")
  case None
  then have "\<exists>ys. checkin_events (snd (confirm env now user body db)) = checkin_events db @ ys"
    by (auto simp: confirm_def Let_def insertEvent_def generateUUID_def split: prod.splits)
  then show ?thesis
    by (auto simp: list_all_iff status_changes_iff zip_append_self)
next
  case (Some event)
  show ?thesis
  proof (cases "e_status event = confirmed")
    case True
    with Some have "snd (confirm env now user body db) = db"
      by (simp add: confirm_already)
    then show ?thesis
      by (auto simp: list_all_iff status_changes_iff zip_same)
  next
    case False
    let ?c = "case rq_confirmed_at body of Some t \<Rightarrow> t | None \<Rightarrow> now"
    let ?f = "\<lambda>x. if e_event_id x = e_event_id event
                    then x\<lparr>e_status := confirmed, e_confirmed_at := Some ?c, e_updated_at := now\<rparr>
                    else x"
    from confirm_found [OF Some False, of env now]
    obtain r d where ok: "confirm env now user body db = (Ok200 r, d)"
      and flag: "cr_was_escalated r = (e_status event = alerted)"
      and d: "checkin_events d = checkin_events (markConfirmed (e_event_id event) ?c now db)"
      by blast
    have d': "checkin_events d = map ?f (checkin_events db)"
      by (simp add: d markConfirmed_def updateEvents_def)
    have "t = confirmed \<and> (legal_transition s t \<or> s = paused \<or> s = missed)
            \<and> (s = alerted \<longrightarrow> cr_was_escalated r)"
      if "(s, t) \<in> set (status_changes db d)" for s t
    proof -
      from that obtain x where x: "x \<in> set (checkin_events db)" "s = e_status x"
        "t = e_status (?f x)" "s \<noteq> t"
        by (auto simp: status_changes_iff d' zip_map_self)
      then have i: "e_event_id x = e_event_id event"
        by (auto split: if_splits)
      with pk x(1) findConfirmEvent_in [OF Some] have "x = event"
        by (intro same_id_same_row [of "checkin_events db"]) simp_all
      with x i flag show ?thesis
        by (cases s) auto
    qed
    with ok show ?thesis
      by (auto simp: list_all_iff)
  qed
qed

text \<open>
  Claim C1, as stated, fails: confirm moves a paused event to confirmed, a transition the
  state machine of the specification does not have (paused is terminal there).
\<close>

theorem confirm_paused_counterexample:
  "map e_status (checkin_events (snd (confirm exampleEnv 32700000 alice
      \<lparr>rq_event_id = Some ''e1'', rq_scheduled_at = None, rq_confirmed_at = None\<rparr>
      (exampleDB [alice] [] [morningEvent paused] [])))) = [confirmed]
   \<and> status_changes (exampleDB [alice] [] [morningEvent paused] [])
        (snd (confirm exampleEnv 32700000 alice
          \<lparr>rq_event_id = Some ''e1'', rq_scheduled_at = None, rq_confirmed_at = None\<rparr>
          (exampleDB [alice] [] [morningEvent paused] []))) = [(paused, confirmed)]
   \<and> \<not> legal_transition paused confirmed"
  by (simp add: confirm_def findConfirmEvent_def eventById_def markConfirmed_def
      updateEvents_def status_changes_def example_defs)

text \<open>
  Claim C1, amended. On an events table with distinct event ids, every status change made
  by snooze is pending to snoozed; every status change made by confirm ends in confirmed,
  from pending, snoozed or alerted as the state machine has it, or from paused or missed,
  and a change from alerted is answered with \<open>was_escalated\<close> set; every status change
  made by the escalation pass of a tick is from pending or snoozed to alerted. So a
  confirmed event is never moved by any of the three, and a paused event is moved by
  confirm only. No operation removes a row.
\<close>

theorem status_changes_follow_machine:
  assumes pk: "distinct (map e_event_id (checkin_events db))"
  shows "list_all (\<lambda>(s, t). s = pending \<and> t = snoozed)
           (status_changes db (snd (snooze env now user sbody db)))
     \<and> list_all (\<lambda>(s, t). t = confirmed
             \<and> (legal_transition s t \<or> s = paused \<or> s = missed)
             \<and> (s = alerted \<longrightarrow>
                  (\<exists>r. fst (confirm env now user body db) = Ok200 r \<and> cr_was_escalated r)))
           (status_changes db (snd (confirm env now user body db)))
     \<and> list_all (\<lambda>(s, t). (s = pending \<or> s = snoozed) \<and> t = alerted)
           (status_changes db (handleEscalations env now db))
     \<and> length (checkin_events db) \<le> length (checkin_events (snd (snooze env now user sbody db)))
     \<and> length (checkin_events db) \<le> length (checkin_events (snd (confirm env now user body db)))
     \<and> length (checkin_events db) = length (checkin_events (handleEscalations env now db))"
proof -
  have l1: "length (checkin_events db) \<le> length (checkin_events (snd (snooze env now user sbody db)))"
    by (auto simp: snooze_def Let_def updateEvents_def split: option.splits)
  have l2: "length (checkin_events db) \<le> length (checkin_events (snd (confirm env now user body db)))"
    by (auto simp: confirm_def Let_def updateEvents_def markConfirmed_def insertEvent_def
        generateUUID_def split: option.splits prod.splits)
  have l3: "length (checkin_events db) = length (checkin_events (handleEscalations env now db))"
    using handleEscalations_events [of now db env] by (rule list_all2_lengthD)
  from snooze_changes [OF pk] confirm_changes [OF pk] escalation_changes [OF pk] l1 l2 l3
  show ?thesis
    by blast
qed


text \<open>
  Alice confirms after her contacts were alerted: the one change is alerted to confirmed
  and the response says so.
\<close>

theorem status_changes_follow_machine_witness:
  "status_changes (exampleDB [alice] [] [morningEvent alerted] [])
     (snd (confirm exampleEnv 33700000 alice
        \<lparr>rq_event_id = Some ''e1'', rq_scheduled_at = None, rq_confirmed_at = None\<rparr>
        (exampleDB [alice] [] [morningEvent alerted] []))) = [(alerted, confirmed)]
   \<and> (\<exists>r. fst (confirm exampleEnv 33700000 alice
        \<lparr>rq_event_id = Some ''e1'', rq_scheduled_at = None, rq_confirmed_at = None\<rparr>
        (exampleDB [alice] [] [morningEvent alerted] [])) = Ok200 r \<and> cr_was_escalated r)"
proof -
  let ?db = "exampleDB [alice] [] [morningEvent alerted] []"
  let ?body = "\<lparr>rq_event_id = Some ''e1'', rq_scheduled_at = None, rq_confirmed_at = None\<rparr>"
  have pk: "distinct (map e_event_id (checkin_events ?db))"
    by (simp add: example_defs)
  have c: "status_changes ?db (snd (confirm exampleEnv 33700000 alice ?body ?db))
             = [(alerted, confirmed)]"
    by (simp add: confirm_def findConfirmEvent_def eventById_def markConfirmed_def
        updateEvents_def status_changes_def example_defs)
  from status_changes_follow_machine [OF pk, of exampleEnv 33700000 alice _ ?body]
  have "list_all (\<lambda>(s, t). t = confirmed
             \<and> (legal_transition s t \<or> s = paused \<or> s = missed)
             \<and> (s = alerted \<longrightarrow>
                  (\<exists>r. fst (confirm exampleEnv 33700000 alice ?body ?db) = Ok200 r
                       \<and> cr_was_escalated r)))
           (status_changes ?db (snd (confirm exampleEnv 33700000 alice ?body ?db)))"
    by blast
  then have "\<exists>r. fst (confirm exampleEnv 33700000 alice ?body ?db) = Ok200 r
                \<and> cr_was_escalated r"
    unfolding c by simp
  with c show ?thesis
    by (rule conjI)
qed

section \<open>Delivery keys\<close>

lemma existingDelivery_keys:
  "existingDelivery db eid cid = None \<longleftrightarrow> (eid, cid, ''sms'') \<notin> set (deliveryKeys db)"
  by (auto simp: existingDelivery_def find_None_iff deliveryKeys_def deliveryKey_def)

lemma keys_generateUUID [simp]: "deliveryKeys (snd (generateUUID env db)) = deliveryKeys db"
  by (simp add: generateUUID_def deliveryKeys_def)

lemma keys_outbox [simp]: "deliveryKeys (db\<lparr>outbox := x\<rparr>) = deliveryKeys db"
  by (simp add: deliveryKeys_def)

lemma keys_uuid_count [simp]: "deliveryKeys (db\<lparr>uuid_count := x\<rparr>) = deliveryKeys db"
  by (simp add: deliveryKeys_def)

lemma keys_logEvent [simp]:
  "deliveryKeys (logEvent env now u e t tm r d db) = deliveryKeys db"
  by (simp add: deliveryKeys_def)

lemma keys_updateEvents [simp]: "deliveryKeys (updateEvents P f db) = deliveryKeys db"
  by (simp add: deliveryKeys_def updateEvents_def)

lemma keys_updateDeliveries:
  assumes "\<And>r. deliveryKey (f r) = deliveryKey r"
  shows "deliveryKeys (updateDeliveries P f db) = deliveryKeys db"
  using assms by (simp add: deliveryKeys_def updateDeliveries_def)

lemma keys_insertDelivery_Inr:
  assumes "insertDelivery row db = Inr db'"
  shows "deliveryKeys db' = deliveryKeys db @ [deliveryKey row]
     \<and> deliveryKey row \<notin> set (deliveryKeys db)"
proof -
  from assms have no: "\<not> list_ex (\<lambda>x. d_event_id x = d_event_id row
      \<and> d_contact_id x = d_contact_id row \<and> d_channel x = d_channel row) (alert_deliveries db)"
    and db': "db' = db\<lparr>alert_deliveries := alert_deliveries db @ [row]\<rparr>"
    by (auto simp: insertDelivery_def split: if_splits)
  from no have "deliveryKey row \<notin> set (deliveryKeys db)"
    by (auto simp: list_ex_iff deliveryKeys_def deliveryKey_def)
  with db' show ?thesis
    by (simp add: deliveryKeys_def)
qed

lemma keys_insertDelivery_Inl:
  assumes "insertDelivery row db = Inl err"
  shows "deliveryKey row \<in> set (deliveryKeys db)"
proof -
  from assms have "list_ex (\<lambda>x. d_event_id x = d_event_id row
      \<and> d_contact_id x = d_contact_id row \<and> d_channel x = d_channel row) (alert_deliveries db)"
    by (simp add: insertDelivery_def split: if_splits)
  then obtain x where x: "x \<in> set (alert_deliveries db)" "deliveryKey x = deliveryKey row"
    by (auto simp: list_ex_iff deliveryKey_def)
  from x(1) have "deliveryKey x \<in> set (deliveryKeys db)"
    by (simp add: deliveryKeys_def)
  with x(2) show ?thesis
    by simp
qed

lemma pushContact_keys:
  "deliveryKeys (pushContact env now eid c db) = deliveryKeys db
   \<or> (deliveryKeys (pushContact env now eid c db)
         = deliveryKeys db @ [(eid, c_contact_id c, ''push'')]
       \<and> (eid, c_contact_id c, ''push'') \<notin> set (deliveryKeys db))"
proof (cases "c_apns_token c")
  case None
  then show ?thesis by (simp add: pushContact_def)
next
  case (Some token)
  show ?thesis
  proof (cases "c_has_app c \<noteq> 0 \<and> token \<noteq> [] \<and> sendContactAlert env token")
    case False
    with Some show ?thesis by (auto simp: pushContact_def)
  next
    case True
    let ?db1 = "db\<lparr>outbox := outbox db @ [ContactAlertTo token]\<rparr>"
    let ?db2 = "snd (generateUUID env ?db1)"
    let ?row = "pushDelivery (fst (generateUUID env ?db1)) eid (c_contact_id c) now"
    have k: "deliveryKey ?row = (eid, c_contact_id c, ''push'')"
      by (simp add: pushDelivery_def deliveryKey_def)
    have p: "pushContact env now eid c db
               = (case insertDelivery ?row ?db2 of Inl err \<Rightarrow> ?db2 | Inr db3 \<Rightarrow> db3)"
      using Some True by (simp add: pushContact_def Let_def split_def)
    show ?thesis
    proof (cases "insertDelivery ?row ?db2")
      case (Inl err)
      with p show ?thesis by simp
    next
      case (Inr db3)
      from keys_insertDelivery_Inr [OF Inr] p Inr k show ?thesis
        by simp
    qed
  qed
qed

lemma pushContact_sms:
  "(eid', cid, ''sms'') \<in> set (deliveryKeys (pushContact env now eid c db))
     \<longleftrightarrow> (eid', cid, ''sms'') \<in> set (deliveryKeys db)"
  using pushContact_keys [of env now eid c db] by auto

text \<open>The keys one contact's step appends: none, its push key, its SMS key, or both.\<close>

lemma alertContact_keys:
  "\<exists>ks. deliveryKeys (fst (alertContact env now eid msg c (d, acc))) = deliveryKeys d @ ks
      \<and> set ks \<subseteq> {(eid, c_contact_id c, ''push''), (eid, c_contact_id c, ''sms'')}
      \<and> distinct ks \<and> set ks \<inter> set (deliveryKeys d) = {}
      \<and> (existingDelivery d eid (c_contact_id c) \<noteq> None \<longrightarrow> ks = [])"
proof (cases "existingDelivery d eid (c_contact_id c)")
  case (Some row)
  then show ?thesis
    by (simp add: alertContact_def)
next
  case None
  let ?d1 = "pushContact env now eid c d"
  from pushContact_keys [of env now eid c d]
  obtain k1 where k1: "deliveryKeys ?d1 = deliveryKeys d @ k1"
    "set k1 \<subseteq> {(eid, c_contact_id c, ''push'')}" "distinct k1"
    "set k1 \<inter> set (deliveryKeys d) = {}"
    by (elim disjE) (force intro: that [of "[]"], force intro: that [of "[(eid, c_contact_id c, ''push'')]"])
  show ?thesis
  proof (cases "decrypt env (c_phone_enc c)")
    case (Inl thrown)
    with None have "fst (alertContact env now eid msg c (d, acc)) = ?d1"
      by (simp add: alertContact_def)
    with k1 None show ?thesis
      by auto
  next
    case (Inr phone)
    let ?d2 = "snd (generateUUID env ?d1)"
    let ?id = "fst (generateUUID env ?d1)"
    let ?row = "smsDelivery ?id eid (c_contact_id c) now"
    have k: "deliveryKey ?row = (eid, c_contact_id c, ''sms'')"
      by (simp add: smsDelivery_def deliveryKey_def)
    from None have free: "(eid, c_contact_id c, ''sms'') \<notin> set (deliveryKeys ?d2)"
      by (simp add: existingDelivery_keys pushContact_sms)
    then obtain d3 where d3: "insertDelivery ?row ?d2 = Inr d3"
      using keys_insertDelivery_Inl [of ?row ?d2] k by (cases "insertDelivery ?row ?d2") auto
    from keys_insertDelivery_Inr [OF d3] k
    have kd3: "deliveryKeys d3 = deliveryKeys ?d1 @ [(eid, c_contact_id c, ''sms'')]"
      by simp
    let ?d4 = "d3\<lparr>outbox := outbox d3 @ [SmsTo phone msg]\<rparr>"
    have "\<exists>f. fst (alertContact env now eid msg c (d, acc))
                 = updateDeliveries (\<lambda>r. d_delivery_id r = ?id) f ?d4
            \<and> (\<forall>r. deliveryKey (f r) = deliveryKey r)"
      using None Inr d3
      by (cases "success (twilio env phone msg)")
        (auto simp: alertContact_def Let_def split_def deliveryKey_def)
    then obtain f where f: "fst (alertContact env now eid msg c (d, acc))
                 = updateDeliveries (\<lambda>r. d_delivery_id r = ?id) f ?d4"
      "\<And>r. deliveryKey (f r) = deliveryKey r"
      by blast
    have "deliveryKeys (fst (alertContact env now eid msg c (d, acc)))
            = deliveryKeys d @ (k1 @ [(eid, c_contact_id c, ''sms'')])"
      unfolding f(1) by (simp add: keys_updateDeliveries [OF f(2)] kd3 k1(1))
    moreover from free k1 have "(eid, c_contact_id c, ''sms'') \<notin> set (deliveryKeys d)"
      "(eid, c_contact_id c, ''sms'') \<notin> set k1"
      by auto
    ultimately show ?thesis
      using k1 None by (intro exI [of _ "k1 @ [(eid, c_contact_id c, ''sms'')]"]) auto
  qed
qed

section \<open>Escalation: one result per contact\<close>

lemma alertContact_skip:
  assumes "existingDelivery d eid (c_contact_id c) \<noteq> None"
  shows "alertContact env now eid msg c (d, acc)
           = (d, acc @ [report (c_contact_id c) ''already_exists'' None])"
  using assms by (auto simp: alertContact_def)

lemma alertContact_report:
  "snd (alertContact env now eid msg c (d, acc)) = acc @ [contactOutcome env d eid msg c]"
proof (cases "existingDelivery d eid (c_contact_id c)")
  case (Some row)
  then show ?thesis
    by (simp add: alertContact_def contactOutcome_def)
next
  case None
  let ?d1 = "pushContact env now eid c d"
  show ?thesis
  proof (cases "decrypt env (c_phone_enc c)")
    case (Inl thrown)
    with None show ?thesis
      by (simp add: alertContact_def contactOutcome_def)
  next
    case (Inr phone)
    let ?d2 = "snd (generateUUID env ?d1)"
    let ?row = "smsDelivery (fst (generateUUID env ?d1)) eid (c_contact_id c) now"
    have k: "deliveryKey ?row = (eid, c_contact_id c, ''sms'')"
      by (simp add: smsDelivery_def deliveryKey_def)
    from None have "(eid, c_contact_id c, ''sms'') \<notin> set (deliveryKeys ?d2)"
      by (simp add: existingDelivery_keys pushContact_sms)
    then obtain d3 where d3: "insertDelivery ?row ?d2 = Inr d3"
      using keys_insertDelivery_Inl [of ?row ?d2] k by (cases "insertDelivery ?row ?d2") auto
    show ?thesis
      using None Inr d3
      by (cases "success (twilio env phone msg)")
        (simp_all add: alertContact_def contactOutcome_def Let_def split_def)
  qed
qed

lemma alertContact_others:
  assumes "cid \<noteq> c_contact_id c"
  shows "(existingDelivery (fst (alertContact env now eid msg c (d, acc))) eid cid = None)
           = (existingDelivery d eid cid = None)"
proof -
  from alertContact_keys [of env now eid msg c d acc]
  obtain ks where "deliveryKeys (fst (alertContact env now eid msg c (d, acc)))
                     = deliveryKeys d @ ks"
    "set ks \<subseteq> {(eid, c_contact_id c, ''push''), (eid, c_contact_id c, ''sms'')}"
    by blast
  with assms show ?thesis
    by (auto simp: existingDelivery_keys)
qed

lemma contactOutcome_cong:
  assumes "(existingDelivery d eid (c_contact_id c) = None)
             = (existingDelivery db eid (c_contact_id c) = None)"
  shows "contactOutcome env d eid msg c = contactOutcome env db eid msg c"
  using assms by (simp add: contactOutcome_def)

lemma fold_alertContact_reports:
  assumes "distinct (map c_contact_id cs)"
    and "\<forall>c \<in> set cs. (existingDelivery d eid (c_contact_id c) = None)
                        = (existingDelivery db eid (c_contact_id c) = None)"
  shows "snd (fold (alertContact env now eid msg) cs (d, acc))
           = acc @ map (contactOutcome env db eid msg) cs"
  using assms
proof (induction cs arbitrary: d acc)
  case Nil
  then show ?case by simp
next
  case (Cons c cs)
  obtain d' acc' where step: "alertContact env now eid msg c (d, acc) = (d', acc')"
    by (cases "alertContact env now eid msg c (d, acc)")
  from alertContact_report [of env now eid msg c d acc] step
  have "acc' = acc @ [contactOutcome env d eid msg c]"
    by simp
  moreover have "contactOutcome env d eid msg c = contactOutcome env db eid msg c"
    using Cons.prems(2) by (intro contactOutcome_cong) simp
  ultimately have acc': "acc' = acc @ [contactOutcome env db eid msg c]"
    by simp
  have "\<forall>x \<in> set cs. (existingDelivery d' eid (c_contact_id x) = None)
                        = (existingDelivery db eid (c_contact_id x) = None)"
  proof
    fix x
    assume x: "x \<in> set cs"
    then have inx: "c_contact_id x \<in> c_contact_id ` set cs"
      by (rule imageI)
    from Cons.prems(1) have notc: "c_contact_id c \<notin> c_contact_id ` set cs"
      by simp
    have "c_contact_id x \<noteq> c_contact_id c"
    proof
      assume "c_contact_id x = c_contact_id c"
      with inx have "c_contact_id c \<in> c_contact_id ` set cs"
        by simp
      with notc show False
        by (rule notE)
    qed
    from alertContact_others [OF this, of env now eid msg d acc] step
    have "(existingDelivery d' eid (c_contact_id x) = None)
            = (existingDelivery d eid (c_contact_id x) = None)"
      by simp
    also from Cons.prems(2) x
    have "\<dots> = (existingDelivery db eid (c_contact_id x) = None)"
      by simp
    finally show "(existingDelivery d' eid (c_contact_id x) = None)
            = (existingDelivery db eid (c_contact_id x) = None)" .
  qed
  with Cons.prems(1) have "snd (fold (alertContact env now eid msg) cs (d', acc'))
           = acc' @ map (contactOutcome env db eid msg) cs"
    by (intro Cons.IH) simp_all
  with step acc' show ?case
    by simp
qed

lemma userContacts_distinct:
  assumes "distinct (map c_contact_id (contacts db))"
  shows "distinct (map c_contact_id (userContacts db uid))"
proof -
  from assms have "distinct (map c_contact_id (filter (\<lambda>c. c_user_id c = uid) (contacts db)))"
    by (rule distinct_map_filter)
  then show ?thesis
    by (simp add: userContacts_def distinct_map)
qed

text \<open>The database as the contact loop of \<open>triggerEscalation\<close> finds it.\<close>

lemma before_contacts:
  "userContacts (logEvent env now u e t tm r dt (updateEvents P f db)) uid = userContacts db uid"
  "existingDelivery (logEvent env now u e t tm r dt (updateEvents P f db)) eid cid
     = existingDelivery db eid cid"
  by (simp_all add: userContacts_def existingDelivery_def updateEvents_def)

lemma triggerEscalation_reports:
  assumes ev: "eventWithUser db eid = Some (event, user)"
    and sms: "u_sms_alerts_enabled user \<noteq> 0"
    and pk: "distinct (map c_contact_id (contacts db))"
  shows "\<exists>res d. triggerEscalation env now eid db = (Inr res, d)
     \<and> er_deliveries res =
         map (contactOutcome env db eid
                (generateAlertMessage (userName user) (e_scheduled_time event)))
           (userContacts db (e_user_id event))
     \<and> er_contacts_notified res = sentCount (er_deliveries res)"
proof -
  let ?db2 = "logEvent env now (e_user_id event) (Some eid) ''checkin_escalated'' now ''missed''
                None (updateEvents (\<lambda>e. e_event_id e = eid)
                      (\<lambda>e. e\<lparr>e_status := alerted, e_escalated_at := Some now,
                              e_updated_at := now\<rparr>) db)"
  let ?msg = "generateAlertMessage (userName user) (e_scheduled_time event)"
  let ?cs = "userContacts db (e_user_id event)"
  have rep: "snd (fold (alertContact env now eid ?msg) ?cs (?db2, []))
           = [] @ map (contactOutcome env db eid ?msg) ?cs"
    using userContacts_distinct [OF pk]
    by (intro fold_alertContact_reports) (simp_all add: before_contacts)
  show ?thesis
  proof (cases "?cs = []")
    case True
    with ev sms show ?thesis
      by (simp add: triggerEscalation_def Let_def sentCount_def before_contacts)
  next
    case False
    with ev sms rep show ?thesis
      by (simp add: triggerEscalation_def Let_def before_contacts)
  qed
qed


section \<open>Escalation: what is sent and stored\<close>

lemma key_ex:
  "list_ex (\<lambda>x. d_event_id x = e \<and> d_contact_id x = c \<and> d_channel x = ch) (alert_deliveries db)
     \<longleftrightarrow> (e, c, ch) \<in> set (deliveryKeys db)"
  by (force simp: list_ex_iff deliveryKeys_def deliveryKey_def)

lemma pushContact_effect:
  "alert_deliveries (pushContact env now eid c db) = alert_deliveries db @
     (case pushToken env c of
        None \<Rightarrow> []
      | Some token \<Rightarrow>
          if (eid, c_contact_id c, ''push'') \<in> set (deliveryKeys db) then []
          else [pushDelivery (randomUUID env (uuid_count db)) eid (c_contact_id c) now])"
  "outbox (pushContact env now eid c db) = outbox db @
     (case pushToken env c of None \<Rightarrow> [] | Some token \<Rightarrow> [ContactAlertTo token])"
  "uuid_count (pushContact env now eid c db) =
     uuid_count db + (case pushToken env c of None \<Rightarrow> 0 | Some token \<Rightarrow> 1)"
  using key_ex [of eid "c_contact_id c" "''push''" db]
  by (auto simp: pushContact_def pushToken_def insertDelivery_def generateUUID_def
      pushDelivery_def deliveryKeys_def split: option.splits)

lemma freshIds_step:
  assumes f: "freshIds env db"
    and le: "uuid_count db \<le> uuid_count d"
    and ids: "d_delivery_id ` set (alert_deliveries d)
                \<subseteq> d_delivery_id ` set (alert_deliveries db)
                  \<union> randomUUID env ` {uuid_count db ..< uuid_count d}"
  shows "freshIds env d"
proof -
  from f have inj: "inj_on (randomUUID env) {uuid_count db..}"
    and new: "\<And>n. uuid_count db \<le> n \<Longrightarrow>
                randomUUID env n \<notin> d_delivery_id ` set (alert_deliveries db)"
    by (simp_all add: freshIds_def)
  from le have sub: "{uuid_count d..} \<subseteq> {uuid_count db..}"
    by auto
  have "randomUUID env n \<notin> d_delivery_id ` set (alert_deliveries d)"
    if n: "uuid_count d \<le> n" for n
  proof
    assume "randomUUID env n \<in> d_delivery_id ` set (alert_deliveries d)"
    with ids have "randomUUID env n \<in> d_delivery_id ` set (alert_deliveries db)
        \<or> randomUUID env n \<in> randomUUID env ` {uuid_count db ..< uuid_count d}"
      by auto
    then show False
    proof
      assume "randomUUID env n \<in> d_delivery_id ` set (alert_deliveries db)"
      with new [of n] n le show False
        by simp
    next
      assume "randomUUID env n \<in> randomUUID env ` {uuid_count db ..< uuid_count d}"
      then obtain k where k: "uuid_count db \<le> k" "k < uuid_count d"
          "randomUUID env n = randomUUID env k"
        by auto
      with inj n le have "n = k"
        by (auto dest!: inj_onD [where x = n and y = k])
      with k n show False
        by simp
    qed
  qed
  with inj sub show ?thesis
    by (auto simp: freshIds_def intro: inj_on_subset)
qed

lemma pushContact_fresh:
  assumes "freshIds env db"
  shows "freshIds env (pushContact env now eid c db)"
  using assms
proof (rule freshIds_step)
  show "uuid_count db \<le> uuid_count (pushContact env now eid c db)"
    by (simp add: pushContact_effect)
  show "d_delivery_id ` set (alert_deliveries (pushContact env now eid c db))
          \<subseteq> d_delivery_id ` set (alert_deliveries db)
            \<union> randomUUID env ` {uuid_count db ..< uuid_count (pushContact env now eid c db)}"
    by (auto simp: pushContact_effect pushDelivery_def split: option.splits)
qed

lemma fresh_next:
  assumes "freshIds env db"
  shows "randomUUID env (uuid_count db) \<notin> d_delivery_id ` set (alert_deliveries db)"
  using assms by (simp add: freshIds_def)

lemma update_last:
  assumes "\<forall>r \<in> set rows. \<not> P r" and "P row"
  shows "map (\<lambda>r. if P r then f r else r) (rows @ [row]) = rows @ [f row]"
  using assms by (simp add: map_idI)

text \<open>The SMS part of one contact's step, when no SMS row exists and the number decrypts.\<close>

lemma alertContact_sms_step:
  assumes none: "existingDelivery d eid (c_contact_id c) = None"
    and phone: "decrypt env (c_phone_enc c) = Inr phone"
  shows "fst (alertContact env now eid msg c (d, acc))
           = updateDeliveries
               (\<lambda>r. d_delivery_id r = randomUUID env (uuid_count (pushContact env now eid c d)))
               (recorded now (twilio env phone msg))
               ((pushContact env now eid c d)
                  \<lparr>uuid_count := Suc (uuid_count (pushContact env now eid c d)),
                   alert_deliveries := alert_deliveries (pushContact env now eid c d)
                     @ [smsDelivery (randomUUID env (uuid_count (pushContact env now eid c d)))
                          eid (c_contact_id c) now],
                   outbox := outbox (pushContact env now eid c d) @ [SmsTo phone msg]\<rparr>)"
proof -
  let ?d1 = "pushContact env now eid c d"
  let ?id = "randomUUID env (uuid_count ?d1)"
  let ?d2 = "?d1\<lparr>uuid_count := Suc (uuid_count ?d1)\<rparr>"
  let ?row = "smsDelivery ?id eid (c_contact_id c) now"
  let ?d3 = "?d2\<lparr>alert_deliveries := alert_deliveries ?d1 @ [?row]\<rparr>"
  have g: "generateUUID env ?d1 = (?id, ?d2)"
    by (simp add: generateUUID_def)
  from none have "(eid, c_contact_id c, ''sms'') \<notin> set (deliveryKeys ?d2)"
    by (simp add: existingDelivery_keys pushContact_sms)
  then have ins: "insertDelivery ?row ?d2 = Inr ?d3"
    using key_ex [of eid "c_contact_id c" "''sms''" ?d2]
    by (simp add: insertDelivery_def smsDelivery_def)
  show ?thesis
    using none phone g ins
    by (cases "success (twilio env phone msg)")
      (simp_all add: alertContact_def Let_def recorded_def updateDeliveries_def)
qed

lemma alertContact_sms:
  assumes none: "existingDelivery d eid (c_contact_id c) = None"
    and phone: "decrypt env (c_phone_enc c) = Inr phone"
    and fresh: "freshIds env d"
  shows "alert_deliveries (fst (alertContact env now eid msg c (d, acc)))
           = alert_deliveries (pushContact env now eid c d)
             @ [recorded now (twilio env phone msg)
                  (smsDelivery (randomUUID env (uuid_count (pushContact env now eid c d)))
                     eid (c_contact_id c) now)]"
    and "uuid_count (fst (alertContact env now eid msg c (d, acc)))
           = Suc (uuid_count (pushContact env now eid c d))"
proof -
  let ?d1 = "pushContact env now eid c d"
  let ?id = "randomUUID env (uuid_count ?d1)"
  let ?row = "smsDelivery ?id eid (c_contact_id c) now"
  let ?P = "\<lambda>r. d_delivery_id r = ?id"
  note step = alertContact_sms_step [OF none phone, of now msg acc]
  from pushContact_fresh [OF fresh] have "?id \<notin> d_delivery_id ` set (alert_deliveries ?d1)"
    by (rule fresh_next)
  then have "\<forall>r \<in> set (alert_deliveries ?d1). \<not> ?P r"
    by (metis image_eqI)
  moreover have "?P ?row"
    by (simp add: smsDelivery_def)
  ultimately have "map (\<lambda>r. if ?P r then recorded now (twilio env phone msg) r else r)
                      (alert_deliveries ?d1 @ [?row])
                   = alert_deliveries ?d1 @ [recorded now (twilio env phone msg) ?row]"
    by (rule update_last)
  then show "alert_deliveries (fst (alertContact env now eid msg c (d, acc)))
           = alert_deliveries ?d1 @ [recorded now (twilio env phone msg) ?row]"
    by (simp add: step updateDeliveries_def)
  show "uuid_count (fst (alertContact env now eid msg c (d, acc))) = Suc (uuid_count ?d1)"
    by (simp add: step updateDeliveries_def)
qed

text \<open>What one contact's step sends is what is sent for that contact taken alone.\<close>

lemma alertContact_outbox:
  "outbox (fst (alertContact env now eid msg c (d, acc)))
     = outbox d @ contactMessages env d eid msg c"
proof (cases "existingDelivery d eid (c_contact_id c)")
  case (Some row)
  then show ?thesis
    by (simp add: alertContact_def contactMessages_def)
next
  case None
  show ?thesis
  proof (cases "decrypt env (c_phone_enc c)")
    case (Inl thrown)
    with None show ?thesis
      by (simp add: alertContact_def pushContact_effect contactMessages_def)
  next
    case (Inr phone)
    with None show ?thesis
      by (simp add: alertContact_sms_step [OF None Inr] updateDeliveries_def
          pushContact_effect contactMessages_def)
  qed
qed

lemma withoutId_fields [simp]:
  "withoutId (pushDelivery i eid cid now) = pushDelivery [] eid cid now"
  "withoutId (recorded now r (smsDelivery i eid cid now)) = recorded now r (smsDelivery [] eid cid now)"
  by (simp_all add: withoutId_def pushDelivery_def recorded_def smsDelivery_def)

text \<open>
  One contact's step appends the rows of that contact taken alone against the database
  the step starts from.
\<close>

lemma alertContact_effect:
  assumes fresh: "freshIds env d"
  shows "\<exists>new. alert_deliveries (fst (alertContact env now eid msg c (d, acc)))
                  = alert_deliveries d @ new
            \<and> map withoutId new = contactRows env now d eid msg c"
    and "freshIds env (fst (alertContact env now eid msg c (d, acc)))"
proof -
  let ?d1 = "pushContact env now eid c d"
  let ?d' = "fst (alertContact env now eid msg c (d, acc))"
  let ?push = "case pushToken env c of
        None \<Rightarrow> []
      | Some token \<Rightarrow>
          if (eid, c_contact_id c, ''push'') \<in> set (deliveryKeys d) then []
          else [pushDelivery (randomUUID env (uuid_count d)) eid (c_contact_id c) now]"
  have p1: "alert_deliveries ?d1 = alert_deliveries d @ ?push"
    by (rule pushContact_effect)
  have p2: "map withoutId ?push = (case pushToken env c of
        None \<Rightarrow> []
      | Some token \<Rightarrow>
          if (eid, c_contact_id c, ''push'') \<in> set (deliveryKeys d) then []
          else [pushDelivery [] eid (c_contact_id c) now])"
    by (simp split: option.splits)
  have f1: "freshIds env ?d1"
    using fresh by (rule pushContact_fresh)
  have all: "(\<exists>new. alert_deliveries ?d' = alert_deliveries d @ new
            \<and> map withoutId new = contactRows env now d eid msg c)
     \<and> freshIds env ?d'"
  proof (cases "existingDelivery d eid (c_contact_id c)")
    case (Some row)
    then have "?d' = d"
      by (simp add: alertContact_def)
    with Some fresh show ?thesis
      by (simp add: contactRows_def)
  next
    case None
    show ?thesis
    proof (cases "decrypt env (c_phone_enc c)")
      case (Inl thrown)
      with None have d': "?d' = ?d1"
        by (simp add: alertContact_def)
      have "alert_deliveries ?d' = alert_deliveries d @ ?push
            \<and> map withoutId ?push = contactRows env now d eid msg c"
        using None Inl p2 by (simp add: d' p1 contactRows_def)
      then have "\<exists>new. alert_deliveries ?d' = alert_deliveries d @ new
            \<and> map withoutId new = contactRows env now d eid msg c"
        by (rule exI)
      moreover have "freshIds env ?d'"
        using f1 by (simp add: d')
      ultimately show ?thesis
        by (rule conjI)
    next
      case (Inr phone)
      let ?row = "recorded now (twilio env phone msg)
                    (smsDelivery (randomUUID env (uuid_count ?d1)) eid (c_contact_id c) now)"
      note s = alertContact_sms [OF None Inr fresh, of now msg acc]
      have "alert_deliveries ?d' = alert_deliveries d @ (?push @ [?row])
            \<and> map withoutId (?push @ [?row]) = contactRows env now d eid msg c"
        using None Inr p2 by (simp add: s(1) p1 contactRows_def)
      then have "\<exists>new. alert_deliveries ?d' = alert_deliveries d @ new
            \<and> map withoutId new = contactRows env now d eid msg c"
        by (rule exI)
      moreover have "freshIds env ?d'"
        using f1
      proof (rule freshIds_step)
        show "uuid_count ?d1 \<le> uuid_count ?d'"
          by (simp add: s(2))
        show "d_delivery_id ` set (alert_deliveries ?d')
                \<subseteq> d_delivery_id ` set (alert_deliveries ?d1)
                  \<union> randomUUID env ` {uuid_count ?d1 ..< uuid_count ?d'}"
          by (auto simp: s(1) s(2) recorded_def smsDelivery_def)
      qed
      ultimately show ?thesis
        by (rule conjI)
    qed
  qed
  from all show "\<exists>new. alert_deliveries ?d' = alert_deliveries d @ new
            \<and> map withoutId new = contactRows env now d eid msg c"
    by (rule conjunct1)
  from all show "freshIds env ?d'"
    by (rule conjunct2)
qed

lemma contactRows_cong:
  assumes "\<forall>ch. ((eid, c_contact_id c, ch) \<in> set (deliveryKeys d))
                = ((eid, c_contact_id c, ch) \<in> set (deliveryKeys db))"
  shows "contactRows env now d eid msg c = contactRows env now db eid msg c"
    and "contactMessages env d eid msg c = contactMessages env db eid msg c"
proof -
  from assms have "(existingDelivery d eid (c_contact_id c) = None)
                     = (existingDelivery db eid (c_contact_id c) = None)"
    by (simp add: existingDelivery_keys)
  with assms show "contactRows env now d eid msg c = contactRows env now db eid msg c"
    and "contactMessages env d eid msg c = contactMessages env db eid msg c"
    by (simp_all add: contactRows_def contactMessages_def)
qed

lemma alertContact_other_keys:
  assumes "cid \<noteq> c_contact_id c"
  shows "((eid, cid, ch) \<in> set (deliveryKeys (fst (alertContact env now eid msg c (d, acc)))))
           = ((eid, cid, ch) \<in> set (deliveryKeys d))"
proof -
  from alertContact_keys [of env now eid msg c d acc]
  obtain ks where "deliveryKeys (fst (alertContact env now eid msg c (d, acc)))
                     = deliveryKeys d @ ks"
    "set ks \<subseteq> {(eid, c_contact_id c, ''push''), (eid, c_contact_id c, ''sms'')}"
    by blast
  with assms show ?thesis
    by auto
qed

text \<open>
  Contact ids being distinct, the step of one contact leaves the delivery keys of the
  contacts still to come as they were.
\<close>

lemma remaining_keys:
  assumes dist: "distinct (map c_contact_id (c # cs))"
    and same: "\<forall>x \<in> set (c # cs). \<forall>ch. ((eid, c_contact_id x, ch) \<in> set (deliveryKeys d))
                        = ((eid, c_contact_id x, ch) \<in> set (deliveryKeys db))"
  shows "\<forall>x \<in> set cs. \<forall>ch.
           ((eid, c_contact_id x, ch)
              \<in> set (deliveryKeys (fst (alertContact env now eid msg c (d, acc)))))
           = ((eid, c_contact_id x, ch) \<in> set (deliveryKeys db))"
proof (intro ballI allI)
  fix x ch
  assume x: "x \<in> set cs"
  then have inx: "c_contact_id x \<in> c_contact_id ` set cs"
    by (rule imageI)
  from dist have notc: "c_contact_id c \<notin> c_contact_id ` set cs"
    by simp
  have "c_contact_id x \<noteq> c_contact_id c"
  proof
    assume "c_contact_id x = c_contact_id c"
    with inx have "c_contact_id c \<in> c_contact_id ` set cs"
      by simp
    with notc show False
      by (rule notE)
  qed
  then have "((eid, c_contact_id x, ch)
                \<in> set (deliveryKeys (fst (alertContact env now eid msg c (d, acc)))))
            = ((eid, c_contact_id x, ch) \<in> set (deliveryKeys d))"
    by (rule alertContact_other_keys)
  also from same x have "\<dots> = ((eid, c_contact_id x, ch) \<in> set (deliveryKeys db))"
    by simp
  finally show "((eid, c_contact_id x, ch)
                \<in> set (deliveryKeys (fst (alertContact env now eid msg c (d, acc)))))
            = ((eid, c_contact_id x, ch) \<in> set (deliveryKeys db))" .
qed

lemma fold_alertContact_outbox:
  assumes "distinct (map c_contact_id cs)"
    and "\<forall>c \<in> set cs. \<forall>ch. ((eid, c_contact_id c, ch) \<in> set (deliveryKeys d))
                        = ((eid, c_contact_id c, ch) \<in> set (deliveryKeys db))"
  shows "outbox (fst (fold (alertContact env now eid msg) cs (d, acc)))
           = outbox d @ concat (map (contactMessages env db eid msg) cs)"
  using assms
proof (induction cs arbitrary: d acc)
  case Nil
  then show ?case by simp
next
  case (Cons c cs)
  obtain d' acc' where step: "alertContact env now eid msg c (d, acc) = (d', acc')"
    by (cases "alertContact env now eid msg c (d, acc)")
  from Cons.prems(2)
  have same: "\<forall>ch. ((eid, c_contact_id c, ch) \<in> set (deliveryKeys d))
                = ((eid, c_contact_id c, ch) \<in> set (deliveryKeys db))"
    by simp
  from alertContact_outbox [of env now eid msg c d acc] step
  have o1: "outbox d' = outbox d @ contactMessages env db eid msg c"
    using contactRows_cong(2) [OF same] by simp
  from remaining_keys [OF Cons.prems(1) Cons.prems(2), of env now msg acc] step
  have "\<forall>x \<in> set cs. \<forall>ch. ((eid, c_contact_id x, ch) \<in> set (deliveryKeys d'))
                        = ((eid, c_contact_id x, ch) \<in> set (deliveryKeys db))"
    by simp
  with Cons.prems(1)
  have "outbox (fst (fold (alertContact env now eid msg) cs (d', acc')))
           = outbox d' @ concat (map (contactMessages env db eid msg) cs)"
    by (intro Cons.IH) simp_all
  with step o1 show ?case
    by simp
qed

lemma fold_alertContact_rows:
  assumes "distinct (map c_contact_id cs)"
    and "\<forall>c \<in> set cs. \<forall>ch. ((eid, c_contact_id c, ch) \<in> set (deliveryKeys d))
                        = ((eid, c_contact_id c, ch) \<in> set (deliveryKeys db))"
    and "freshIds env d"
  shows "\<exists>new. alert_deliveries (fst (fold (alertContact env now eid msg) cs (d, acc)))
                  = alert_deliveries d @ new
            \<and> map withoutId new = concat (map (contactRows env now db eid msg) cs)"
  using assms
proof (induction cs arbitrary: d acc)
  case Nil
  then show ?case by simp
next
  case (Cons c cs)
  obtain d' acc' where step: "alertContact env now eid msg c (d, acc) = (d', acc')"
    by (cases "alertContact env now eid msg c (d, acc)")
  from Cons.prems(2)
  have same: "\<forall>ch. ((eid, c_contact_id c, ch) \<in> set (deliveryKeys d))
                = ((eid, c_contact_id c, ch) \<in> set (deliveryKeys db))"
    by simp
  note e = alertContact_effect [OF Cons.prems(3), of now eid msg c acc]
  from e(1) step obtain new1 where n1: "alert_deliveries d' = alert_deliveries d @ new1"
    "map withoutId new1 = contactRows env now d eid msg c"
    by auto
  from n1(2) have r1: "map withoutId new1 = contactRows env now db eid msg c"
    using contactRows_cong(1) [OF same] by simp
  from e(2) step have f1: "freshIds env d'"
    by simp
  from remaining_keys [OF Cons.prems(1) Cons.prems(2), of env now msg acc] step
  have "\<forall>x \<in> set cs. \<forall>ch. ((eid, c_contact_id x, ch) \<in> set (deliveryKeys d'))
                        = ((eid, c_contact_id x, ch) \<in> set (deliveryKeys db))"
    by simp
  with Cons.prems(1) f1
  have "\<exists>new. alert_deliveries (fst (fold (alertContact env now eid msg) cs (d', acc')))
                  = alert_deliveries d' @ new
            \<and> map withoutId new = concat (map (contactRows env now db eid msg) cs)"
    by (intro Cons.IH) simp_all
  then obtain new2 where n2:
    "alert_deliveries (fst (fold (alertContact env now eid msg) cs (d', acc')))
       = alert_deliveries d' @ new2"
    "map withoutId new2 = concat (map (contactRows env now db eid msg) cs)"
    by auto
  have "alert_deliveries (fst (fold (alertContact env now eid msg) (c # cs) (d, acc)))
          = alert_deliveries d @ (new1 @ new2)
        \<and> map withoutId (new1 @ new2)
            = concat (map (contactRows env now db eid msg) (c # cs))"
    using step n1(1) n2 r1 by simp
  then show ?case
    by (rule exI)
qed

text \<open>The database as the contact loop of \<open>triggerEscalation\<close> finds it, once more.\<close>

lemma updateEvents_frame:
  "alert_deliveries (updateEvents P f db) = alert_deliveries db"
  "outbox (updateEvents P f db) = outbox db"
  "uuid_count (updateEvents P f db) = uuid_count db"
  by (simp_all add: updateEvents_def)

lemma before_contacts_fresh:
  assumes "freshIds env db"
  shows "freshIds env (logEvent env now u e t tm r dt (updateEvents P f db))"
  using assms
proof (rule freshIds_step)
  show "uuid_count db \<le> uuid_count (logEvent env now u e t tm r dt (updateEvents P f db))"
    by (simp add: logEvent_def generateUUID_def updateEvents_def)
  show "d_delivery_id ` set (alert_deliveries (logEvent env now u e t tm r dt (updateEvents P f db)))
          \<subseteq> d_delivery_id ` set (alert_deliveries db)
            \<union> randomUUID env `
                {uuid_count db ..< uuid_count (logEvent env now u e t tm r dt (updateEvents P f db))}"
    by (simp add: updateEvents_frame)
qed

lemma triggerEscalation_sends:
  assumes ev: "eventWithUser db eid = Some (event, user)"
    and sms: "u_sms_alerts_enabled user \<noteq> 0"
    and pk: "distinct (map c_contact_id (contacts db))"
  shows "outbox (snd (triggerEscalation env now eid db))
           = outbox db @ concat (map (contactMessages env db eid
               (generateAlertMessage (userName user) (e_scheduled_time event)))
               (userContacts db (e_user_id event)))"
proof -
  let ?db2 = "logEvent env now (e_user_id event) (Some eid) ''checkin_escalated'' now ''missed''
                None (updateEvents (\<lambda>e. e_event_id e = eid)
                      (\<lambda>e. e\<lparr>e_status := alerted, e_escalated_at := Some now,
                              e_updated_at := now\<rparr>) db)"
  let ?msg = "generateAlertMessage (userName user) (e_scheduled_time event)"
  let ?cs = "userContacts db (e_user_id event)"
  have out: "outbox (fst (fold (alertContact env now eid ?msg) ?cs (?db2, [])))
           = outbox ?db2 @ concat (map (contactMessages env db eid ?msg) ?cs)"
    using userContacts_distinct [OF pk]
    by (intro fold_alertContact_outbox) (simp_all add: updateEvents_frame)
  show ?thesis
  proof (cases "?cs = []")
    case True
    with ev sms show ?thesis
      by (simp add: triggerEscalation_def Let_def before_contacts updateEvents_frame)
  next
    case False
    with ev sms out show ?thesis
      by (simp add: triggerEscalation_def Let_def before_contacts updateEvents_frame)
  qed
qed

lemma triggerEscalation_stores:
  assumes ev: "eventWithUser db eid = Some (event, user)"
    and sms: "u_sms_alerts_enabled user \<noteq> 0"
    and pk: "distinct (map c_contact_id (contacts db))"
    and fresh: "freshIds env db"
  shows "\<exists>new. alert_deliveries (snd (triggerEscalation env now eid db))
                  = alert_deliveries db @ new
            \<and> map withoutId new = concat (map (contactRows env now db eid
                 (generateAlertMessage (userName user) (e_scheduled_time event)))
                 (userContacts db (e_user_id event)))"
proof -
  let ?db2 = "logEvent env now (e_user_id event) (Some eid) ''checkin_escalated'' now ''missed''
                None (updateEvents (\<lambda>e. e_event_id e = eid)
                      (\<lambda>e. e\<lparr>e_status := alerted, e_escalated_at := Some now,
                              e_updated_at := now\<rparr>) db)"
  let ?msg = "generateAlertMessage (userName user) (e_scheduled_time event)"
  let ?cs = "userContacts db (e_user_id event)"
  have "\<exists>new. alert_deliveries (fst (fold (alertContact env now eid ?msg) ?cs (?db2, [])))
                  = alert_deliveries ?db2 @ new
            \<and> map withoutId new = concat (map (contactRows env now db eid ?msg) ?cs)"
    using userContacts_distinct [OF pk] before_contacts_fresh [OF fresh]
    by (intro fold_alertContact_rows) (simp_all add: updateEvents_frame)
  then have rows: "\<exists>new. alert_deliveries (fst (fold (alertContact env now eid ?msg) ?cs (?db2, [])))
                  = alert_deliveries db @ new
            \<and> map withoutId new = concat (map (contactRows env now db eid ?msg) ?cs)"
    by (simp add: updateEvents_frame)
  show ?thesis
  proof (cases "?cs = []")
    case True
    with ev sms show ?thesis
      by (simp add: triggerEscalation_def Let_def before_contacts updateEvents_frame)
  next
    case False
    with ev sms rows show ?thesis
      by (simp add: triggerEscalation_def Let_def before_contacts updateEvents_frame)
  qed
qed


text \<open>
  Claim C8. When the event and its user are found, the user has alerts enabled and contact
  ids are distinct, \<open>triggerEscalation\<close> returns, and returns one result per contact of
  the user, in level order: each result is the outcome of that contact taken alone
  (\<open>already_exists\<close>; \<open>error\<close> with the thrown message when its phone number cannot
  be decrypted; \<open>sent\<close> or \<open>failed\<close> as the provider answers for it), whatever
  happened to the contacts before it. The count of contacts notified is the number of
  \<open>sent\<close> results. Every contact is attempted: what the call sends is, contact after
  contact, what is sent for that contact taken alone (its push alert and its SMS). And
  every outcome is stored: with identifiers that are fresh, the call leaves the rows of
  the deliveries table as they were and appends, contact after contact, the rows of that
  contact taken alone, the SMS row holding the answer of the provider (\<open>sent\<close> with the
  provider's reference, or \<open>failed\<close> with its error message and the first retry time).
\<close>

theorem escalation_isolates_failures:
  assumes ev: "eventWithUser db eid = Some (event, user)"
    and sms: "u_sms_alerts_enabled user \<noteq> 0"
    and pk: "distinct (map c_contact_id (contacts db))"
  shows "\<exists>res d. triggerEscalation env now eid db = (Inr res, d)
     \<and> er_deliveries res =
         map (contactOutcome env db eid
                (generateAlertMessage (userName user) (e_scheduled_time event)))
           (userContacts db (e_user_id event))
     \<and> er_contacts_notified res = sentCount (er_deliveries res)
     \<and> outbox d = outbox db @
         concat (map (contactMessages env db eid
                        (generateAlertMessage (userName user) (e_scheduled_time event)))
                   (userContacts db (e_user_id event)))
     \<and> (freshIds env db \<longrightarrow>
          (\<exists>new. alert_deliveries d = alert_deliveries db @ new
             \<and> map withoutId new =
                 concat (map (contactRows env now db eid
                                (generateAlertMessage (userName user) (e_scheduled_time event)))
                           (userContacts db (e_user_id event)))))"
proof -
  let ?msg = "generateAlertMessage (userName user) (e_scheduled_time event)"
  let ?cs = "userContacts db (e_user_id event)"
  from triggerEscalation_reports [OF ev sms pk, of env now]
  obtain res d where t: "triggerEscalation env now eid db = (Inr res, d)"
    and r: "er_deliveries res = map (contactOutcome env db eid ?msg) ?cs"
    and n: "er_contacts_notified res = sentCount (er_deliveries res)"
    by blast
  from t have d: "d = snd (triggerEscalation env now eid db)"
    by simp
  have out: "outbox d = outbox db @ concat (map (contactMessages env db eid ?msg) ?cs)"
    unfolding d using ev sms pk by (rule triggerEscalation_sends)
  have rows: "freshIds env db \<longrightarrow>
          (\<exists>new. alert_deliveries d = alert_deliveries db @ new
             \<and> map withoutId new = concat (map (contactRows env now db eid ?msg) ?cs))"
    unfolding d using ev sms pk by (intro impI triggerEscalation_stores)
  from t r n out rows
  have "triggerEscalation env now eid db = (Inr res, d)
     \<and> er_deliveries res = map (contactOutcome env db eid ?msg) ?cs
     \<and> er_contacts_notified res = sentCount (er_deliveries res)
     \<and> outbox d = outbox db @ concat (map (contactMessages env db eid ?msg) ?cs)
     \<and> (freshIds env db \<longrightarrow>
          (\<exists>new. alert_deliveries d = alert_deliveries db @ new
             \<and> map withoutId new = concat (map (contactRows env now db eid ?msg) ?cs)))"
    by (intro conjI)
  then show ?thesis
    by (intro exI)
qed

text \<open>
  Three contacts: Bob's SMS is sent, Carol's number cannot be decrypted and Dave's is
  refused. The call returns all three results, Carol's with the thrown message; the SMS
  to Bob and the SMS to Dave went out, and their rows are stored as sent and as failed.
\<close>

theorem escalation_isolates_failures_witness:
  "\<exists>res d. triggerEscalation exampleEnv 33060000 ''e1''
       (exampleDB [alice] [bob, carol, dave] [morningEvent pending] []) = (Inr res, d)
     \<and> er_deliveries res =
         [report ''c1'' ''sent'' None, report ''c2'' ''error'' (Some ''Cipher job failed''),
          report ''c3'' ''failed'' (Some ''Invalid number'')]
     \<and> er_contacts_notified res = 1
     \<and> outbox d = [SmsTo ''+15550001'' (generateAlertMessage ''Alice'' 32400000),
                    SmsTo ''+15550003'' (generateAlertMessage ''Alice'' 32400000)]
     \<and> map (\<lambda>r. (d_contact_id r, d_channel r, d_status r, d_error_message r))
           (alert_deliveries d)
         = [(''c1'', ''sms'', sent, None), (''c3'', ''sms'', failed, Some ''Invalid number'')]"
proof -
  let ?db = "exampleDB [alice] [bob, carol, dave] [morningEvent pending] []"
  let ?msg = "generateAlertMessage ''Alice'' 32400000"
  let ?g = "\<lambda>r. (d_contact_id r, d_channel r, d_status r, d_error_message r)"
  have ev: "eventWithUser ?db ''e1'' = Some (morningEvent pending, alice)"
    by (simp add: eventWithUser_def first_def example_defs)
  have sms: "u_sms_alerts_enabled alice \<noteq> 0"
    by (simp add: alice_def)
  have pk: "distinct (map c_contact_id (contacts ?db))"
    by (simp add: example_defs)
  have fresh: "freshIds exampleEnv ?db"
    by (simp add: freshIds_def inj_on_def example_defs)
  have cs: "userContacts ?db (e_user_id (morningEvent pending)) = [bob, carol, dave]"
    by (simp add: userContacts_def example_defs)
  have msg: "generateAlertMessage (userName alice) (e_scheduled_time (morningEvent pending))
               = ?msg"
    by (simp add: userName_def example_defs)
  from escalation_isolates_failures [OF ev sms pk, of exampleEnv 33060000] fresh
  obtain res d new where t: "triggerEscalation exampleEnv 33060000 ''e1'' ?db = (Inr res, d)"
    and r: "er_deliveries res = map (contactOutcome exampleEnv ?db ''e1'' ?msg) [bob, carol, dave]"
    and n: "er_contacts_notified res = sentCount (er_deliveries res)"
    and o: "outbox d = outbox ?db
              @ concat (map (contactMessages exampleEnv ?db ''e1'' ?msg) [bob, carol, dave])"
    and a: "alert_deliveries d = alert_deliveries ?db @ new"
    and w: "map withoutId new
              = concat (map (contactRows exampleEnv 33060000 ?db ''e1'' ?msg) [bob, carol, dave])"
    unfolding cs msg by blast
  have b: "contactOutcome exampleEnv ?db ''e1'' m bob = report ''c1'' ''sent'' None" for m
    by (simp add: contactOutcome_def existingDelivery_def example_defs)
  have c: "contactOutcome exampleEnv ?db ''e1'' m carol
             = report ''c2'' ''error'' (Some ''Cipher job failed'')" for m
    by (simp add: contactOutcome_def existingDelivery_def example_defs)
  have dv: "contactOutcome exampleEnv ?db ''e1'' m dave
             = report ''c3'' ''failed'' (Some ''Invalid number'')" for m
    by (simp add: contactOutcome_def existingDelivery_def example_defs)
  from r have r1: "er_deliveries res =
      [report ''c1'' ''sent'' None, report ''c2'' ''error'' (Some ''Cipher job failed''),
       report ''c3'' ''failed'' (Some ''Invalid number'')]"
    by (simp add: b c dv)
  from r1 n have r2: "er_contacts_notified res = 1"
    by (simp add: report_def sentCount_def)
  have mb: "contactMessages exampleEnv ?db ''e1'' m bob = [SmsTo ''+15550001'' m]" for m
    by (simp add: contactMessages_def existingDelivery_def pushToken_def example_defs)
  have mc: "contactMessages exampleEnv ?db ''e1'' m carol = []" for m
    by (simp add: contactMessages_def existingDelivery_def pushToken_def example_defs)
  have md: "contactMessages exampleEnv ?db ''e1'' m dave = [SmsTo ''+15550003'' m]" for m
    by (simp add: contactMessages_def existingDelivery_def pushToken_def example_defs)
  have empty: "outbox ?db = []" "alert_deliveries ?db = []"
    by (simp_all add: exampleDB_def)
  from o have r3: "outbox d = [SmsTo ''+15550001'' ?msg, SmsTo ''+15550003'' ?msg]"
    by (simp add: mb mc md empty)
  have wb: "map ?g (contactRows exampleEnv 33060000 ?db ''e1'' m bob)
              = [(''c1'', ''sms'', sent, None)]" for m
    by (simp add: contactRows_def existingDelivery_def pushToken_def recorded_def
        smsDelivery_def example_defs)
  have wc: "contactRows exampleEnv 33060000 ?db ''e1'' m carol = []" for m
    by (simp add: contactRows_def existingDelivery_def pushToken_def example_defs)
  have wd: "map ?g (contactRows exampleEnv 33060000 ?db ''e1'' m dave)
              = [(''c3'', ''sms'', failed, Some ''Invalid number'')]" for m
    by (simp add: contactRows_def existingDelivery_def pushToken_def recorded_def
        smsDelivery_def example_defs)
  have "map ?g new = map ?g (map withoutId new)"
    by (simp add: withoutId_def)
  also have "\<dots> = [(''c1'', ''sms'', sent, None), (''c3'', ''sms'', failed, Some ''Invalid number'')]"
    unfolding w by (simp add: wb wc wd)
  finally have r4: "map ?g (alert_deliveries d)
         = [(''c1'', ''sms'', sent, None), (''c3'', ''sms'', failed, Some ''Invalid number'')]"
    by (simp add: a empty)
  from t r1 r2 r3 r4
  have "triggerEscalation exampleEnv 33060000 ''e1'' ?db = (Inr res, d)
     \<and> er_deliveries res =
         [report ''c1'' ''sent'' None, report ''c2'' ''error'' (Some ''Cipher job failed''),
          report ''c3'' ''failed'' (Some ''Invalid number'')]
     \<and> er_contacts_notified res = 1
     \<and> outbox d = [SmsTo ''+15550001'' ?msg, SmsTo ''+15550003'' ?msg]
     \<and> map ?g (alert_deliveries d)
         = [(''c1'', ''sms'', sent, None), (''c3'', ''sms'', failed, Some ''Invalid number'')]"
    by (intro conjI)
  then show ?thesis
    by (intro exI)
qed

section \<open>Escalation: idempotent delivery\<close>

lemma fold_alertContact_skip:
  assumes "\<forall>c \<in> set cs. existingDelivery d eid (c_contact_id c) \<noteq> None"
  shows "fold (alertContact env now eid msg) cs (d, acc)
           = (d, acc @ map (\<lambda>c. report (c_contact_id c) ''already_exists'' None) cs)"
  using assms
proof (induction cs arbitrary: acc)
  case Nil
  show ?case by simp
next
  case (Cons c cs)
  from Cons.prems have "existingDelivery d eid (c_contact_id c) \<noteq> None"
    by simp
  then have "alertContact env now eid msg c (d, acc)
           = (d, acc @ [report (c_contact_id c) ''already_exists'' None])"
    by (rule alertContact_skip)
  moreover from Cons.prems
  have "fold (alertContact env now eid msg) cs
          (d, (acc @ [report (c_contact_id c) ''already_exists'' None]))
        = (d, (acc @ [report (c_contact_id c) ''already_exists'' None])
               @ map (\<lambda>c. report (c_contact_id c) ''already_exists'' None) cs)"
    by (intro Cons.IH) simp
  ultimately show ?case
    by simp
qed

lemma sentCount_skipped:
  "sentCount (map (\<lambda>c. report (c_contact_id c) ''already_exists'' None) cs) = 0"
  by (induction cs) (simp_all add: sentCount_def report_def)

lemma triggerEscalation_rerun:
  assumes ev: "eventWithUser db eid = Some (event, user)"
    and all: "\<forall>c \<in> set (userContacts db (e_user_id event)).
                existingDelivery db eid (c_contact_id c) \<noteq> None"
  shows "alert_deliveries (snd (triggerEscalation env now eid db)) = alert_deliveries db
     \<and> outbox (snd (triggerEscalation env now eid db)) = outbox db
     \<and> (u_sms_alerts_enabled user \<noteq> 0 \<longrightarrow>
          fst (triggerEscalation env now eid db) =
            Inr \<lparr>er_event_id = eid, er_contacts_notified = 0,
                 er_deliveries = map (\<lambda>c. report (c_contact_id c) ''already_exists'' None)
                                   (userContacts db (e_user_id event))\<rparr>)"
proof -
  let ?db2 = "logEvent env now (e_user_id event) (Some eid) ''checkin_escalated'' now ''missed''
                None (updateEvents (\<lambda>e. e_event_id e = eid)
                      (\<lambda>e. e\<lparr>e_status := alerted, e_escalated_at := Some now,
                              e_updated_at := now\<rparr>) db)"
  let ?msg = "generateAlertMessage (userName user) (e_scheduled_time event)"
  let ?cs = "userContacts db (e_user_id event)"
  have d2: "alert_deliveries ?db2 = alert_deliveries db" "outbox ?db2 = outbox db"
    by (simp_all add: updateEvents_def)
  from all have "\<forall>c \<in> set ?cs. existingDelivery ?db2 eid (c_contact_id c) \<noteq> None"
    by (simp add: before_contacts)
  then have f: "fold (alertContact env now eid ?msg) ?cs (?db2, [])
           = (?db2, [] @ map (\<lambda>c. report (c_contact_id c) ''already_exists'' None) ?cs)"
    by (rule fold_alertContact_skip)
  show ?thesis
  proof (cases "u_sms_alerts_enabled user = 0 \<or> ?cs = []")
    case True
    with ev d2 show ?thesis
      by (auto simp: triggerEscalation_def Let_def before_contacts)
  next
    case False
    with ev d2 f show ?thesis
      by (simp add: triggerEscalation_def Let_def before_contacts sentCount_skipped)
  qed
qed

lemma alertContact_unique:
  assumes "uniqueDeliveries (fst st)"
  shows "uniqueDeliveries (fst (alertContact env now eid msg c st))"
proof -
  from alertContact_keys [of env now eid msg c "fst st" "snd st"]
  obtain ks where "deliveryKeys (fst (alertContact env now eid msg c st))
                     = deliveryKeys (fst st) @ ks"
    "distinct ks" "set ks \<inter> set (deliveryKeys (fst st)) = {}"
    by auto
  with assms show ?thesis
    by (auto simp: uniqueDeliveries_def)
qed

lemma fold_alertContact_unique:
  assumes "uniqueDeliveries (fst st)"
  shows "uniqueDeliveries (fst (fold (alertContact env now eid msg) cs st))"
  using assms by (induction cs arbitrary: st) (simp_all add: alertContact_unique)

lemma triggerEscalation_unique:
  assumes "uniqueDeliveries db"
  shows "uniqueDeliveries (snd (triggerEscalation env now eid db))"
proof (cases "eventWithUser db eid")
  case None
  with assms show ?thesis
    by (simp add: triggerEscalation_def)
next
  case (Some p)
  obtain event user where p: "p = (event, user)"
    by (cases p)
  let ?db2 = "logEvent env now (e_user_id event) (Some eid) ''checkin_escalated'' now ''missed''
                None (updateEvents (\<lambda>e. e_event_id e = eid)
                      (\<lambda>e. e\<lparr>e_status := alerted, e_escalated_at := Some now,
                              e_updated_at := now\<rparr>) db)"
  from assms have u2: "uniqueDeliveries ?db2"
    by (simp add: uniqueDeliveries_def)
  then have "uniqueDeliveries (fst (fold (alertContact env now eid msg) cs (?db2, [])))"
    for msg cs
    by (intro fold_alertContact_unique) simp
  then have "uniqueDeliveries (logEvent env now u e t tm r dt
               (fst (fold (alertContact env now eid msg) cs (?db2, []))))"
    for msg cs u e t tm r dt
    by (simp add: uniqueDeliveries_def)
  with Some p u2 show ?thesis
    by (simp add: triggerEscalation_def Let_def)
qed


text \<open>
  Claim C7, as stated, fails: the guard looks for an SMS row only. Erin has the app and a
  push delivery row for the event from an earlier pass, and no SMS row. Re-running the
  escalation does not skip her: the push is sent again (its second row is refused by the
  unique index), a new SMS row is created and she is reported \<open>sent\<close>.
\<close>

theorem push_row_only_counterexample:
  "deliveryKeys (exampleDB [alice] [erin] [morningEvent alerted]
        [pushDelivery ''d1'' ''e1'' ''c4'' 33060000]) = [(''e1'', ''c4'', ''push'')]
   \<and> fst (triggerEscalation exampleEnv 33120000 ''e1''
        (exampleDB [alice] [erin] [morningEvent alerted]
           [pushDelivery ''d1'' ''e1'' ''c4'' 33060000]))
      = Inr \<lparr>er_event_id = ''e1'', er_contacts_notified = 1,
             er_deliveries = [report ''c4'' ''sent'' None]\<rparr>
   \<and> deliveryKeys (snd (triggerEscalation exampleEnv 33120000 ''e1''
        (exampleDB [alice] [erin] [morningEvent alerted]
           [pushDelivery ''d1'' ''e1'' ''c4'' 33060000])))
      = [(''e1'', ''c4'', ''push''), (''e1'', ''c4'', ''sms'')]
   \<and> outbox (snd (triggerEscalation exampleEnv 33120000 ''e1''
        (exampleDB [alice] [erin] [morningEvent alerted]
           [pushDelivery ''d1'' ''e1'' ''c4'' 33060000])))
      = [ContactAlertTo ''token-erin'',
         SmsTo ''+15550004'' (generateAlertMessage ''Alice'' 32400000)]"
  by (simp add: triggerEscalation_def eventWithUser_def first_def userContacts_def
      updateEvents_def logEvent_def sentCount_def userName_def report_def
      alertContact_def existingDelivery_def pushContact_def insertDelivery_def
      generateUUID_def updateDeliveries_def pushDelivery_def smsDelivery_def Let_def
      deliveryKeys_def deliveryKey_def example_defs)

text \<open>
  Claim C7, amended. A contact for whom an SMS delivery row of the event already exists is
  skipped and reported \<open>already_exists\<close>, and the database is left as it was. So when
  every contact of the event's user has such a row, re-running the escalation creates no
  delivery row and sends nothing, and with alerts enabled it reports every contact
  \<open>already_exists\<close>. Every escalation call keeps the rows of the deliveries table
  distinct on (event_id, contact_id, channel).
\<close>

theorem delivery_idempotent:
  "(existingDelivery d eid (c_contact_id c) \<noteq> None \<longrightarrow>
      alertContact env now eid msg c (d, acc)
        = (d, acc @ [report (c_contact_id c) ''already_exists'' None]))
   \<and> (eventWithUser db eid = Some (event, user)
        \<and> list_all (\<lambda>c. existingDelivery db eid (c_contact_id c) \<noteq> None)
             (userContacts db (e_user_id event)) \<longrightarrow>
      alert_deliveries (snd (triggerEscalation env now eid db)) = alert_deliveries db
      \<and> outbox (snd (triggerEscalation env now eid db)) = outbox db
      \<and> (u_sms_alerts_enabled user \<noteq> 0 \<longrightarrow>
           fst (triggerEscalation env now eid db) =
             Inr \<lparr>er_event_id = eid, er_contacts_notified = 0,
                  er_deliveries = map (\<lambda>c. report (c_contact_id c) ''already_exists'' None)
                                    (userContacts db (e_user_id event))\<rparr>))
   \<and> (uniqueDeliveries db \<longrightarrow> uniqueDeliveries (snd (triggerEscalation env now eid db)))"
proof -
  have a: "existingDelivery d eid (c_contact_id c) \<noteq> None \<longrightarrow>
      alertContact env now eid msg c (d, acc)
        = (d, acc @ [report (c_contact_id c) ''already_exists'' None])"
    by (simp add: alertContact_skip)
  have b: "eventWithUser db eid = Some (event, user)
        \<and> list_all (\<lambda>c. existingDelivery db eid (c_contact_id c) \<noteq> None)
             (userContacts db (e_user_id event)) \<longrightarrow>
      alert_deliveries (snd (triggerEscalation env now eid db)) = alert_deliveries db
      \<and> outbox (snd (triggerEscalation env now eid db)) = outbox db
      \<and> (u_sms_alerts_enabled user \<noteq> 0 \<longrightarrow>
           fst (triggerEscalation env now eid db) =
             Inr \<lparr>er_event_id = eid, er_contacts_notified = 0,
                  er_deliveries = map (\<lambda>c. report (c_contact_id c) ''already_exists'' None)
                                    (userContacts db (e_user_id event))\<rparr>)"
    using triggerEscalation_rerun [of db eid event user env now]
    by (simp add: list_all_iff)
  have c: "uniqueDeliveries db \<longrightarrow> uniqueDeliveries (snd (triggerEscalation env now eid db))"
    by (simp add: triggerEscalation_unique)
  from a b c show ?thesis
    by (intro conjI)
qed

text \<open>
  Bob already has an SMS row for the event: the second pass reports him
  \<open>already_exists\<close> and leaves the one row.
\<close>

theorem delivery_idempotent_witness:
  "alert_deliveries (snd (triggerEscalation exampleEnv 33120000 ''e1''
      (exampleDB [alice] [bob] [morningEvent alerted]
         [smsDelivery ''d1'' ''e1'' ''c1'' 33060000])))
     = [smsDelivery ''d1'' ''e1'' ''c1'' 33060000]
   \<and> fst (triggerEscalation exampleEnv 33120000 ''e1''
      (exampleDB [alice] [bob] [morningEvent alerted]
         [smsDelivery ''d1'' ''e1'' ''c1'' 33060000]))
     = Inr \<lparr>er_event_id = ''e1'', er_contacts_notified = 0,
            er_deliveries = [report ''c1'' ''already_exists'' None]\<rparr>
   \<and> uniqueDeliveries (snd (triggerEscalation exampleEnv 33120000 ''e1''
      (exampleDB [alice] [bob] [morningEvent alerted]
         [smsDelivery ''d1'' ''e1'' ''c1'' 33060000])))"
proof -
  let ?db = "exampleDB [alice] [bob] [morningEvent alerted]
               [smsDelivery ''d1'' ''e1'' ''c1'' 33060000]"
  have ev: "eventWithUser ?db ''e1'' = Some (morningEvent alerted, alice)"
    by (simp add: eventWithUser_def first_def example_defs)
  have cs: "userContacts ?db (e_user_id (morningEvent alerted)) = [bob]"
    by (simp add: userContacts_def example_defs)
  have al: "list_all (\<lambda>c. existingDelivery ?db ''e1'' (c_contact_id c) \<noteq> None)
             (userContacts ?db (e_user_id (morningEvent alerted)))"
    unfolding cs by (simp add: existingDelivery_def smsDelivery_def example_defs)
  have sms: "u_sms_alerts_enabled alice \<noteq> 0"
    by (simp add: alice_def)
  have un: "uniqueDeliveries ?db"
    by (simp add: uniqueDeliveries_def deliveryKeys_def exampleDB_def)
  note t = delivery_idempotent [where db = ?db and eid = "''e1''" and env = exampleEnv
      and now = 33120000 and event = "morningEvent alerted" and user = alice]
  from t ev al sms
  have 1: "alert_deliveries (snd (triggerEscalation exampleEnv 33120000 ''e1'' ?db))
             = alert_deliveries ?db"
    and 2: "fst (triggerEscalation exampleEnv 33120000 ''e1'' ?db) =
             Inr \<lparr>er_event_id = ''e1'', er_contacts_notified = 0,
                  er_deliveries = map (\<lambda>c. report (c_contact_id c) ''already_exists'' None)
                     (userContacts ?db (e_user_id (morningEvent alerted)))\<rparr>"
    by simp_all
  from t un have 3: "uniqueDeliveries (snd (triggerEscalation exampleEnv 33120000 ''e1'' ?db))"
    by simp
  from 1 have r1: "alert_deliveries (snd (triggerEscalation exampleEnv 33120000 ''e1'' ?db))
             = [smsDelivery ''d1'' ''e1'' ''c1'' 33060000]"
    by (simp add: exampleDB_def)
  from 2 have r2: "fst (triggerEscalation exampleEnv 33120000 ''e1'' ?db) =
             Inr \<lparr>er_event_id = ''e1'', er_contacts_notified = 0,
                  er_deliveries = [report ''c1'' ''already_exists'' None]\<rparr>"
    unfolding cs by (simp add: bob_def)
  from r1 r2 3 show ?thesis
    by (intro conjI)
qed

end
